theory Spec2Isabelle
  imports Main
begin

section \<open>The Date object of the host language\<close>

text \<open>
  \<^verbatim>\<open>TaskView.js\<close> computes with the built-in \<^verbatim>\<open>Date\<close> object. A Date holds a time
  value: the number of milliseconds since 1970-01-01T00:00:00Z, or NaN for an invalid
  date. The definitions of this section follow the abstract operations of the language
  standard (Day, TimeWithinDay, DaysInYear, DayFromYear, YearFromTime, MonthFromTime,
  DateFromTime, WeekDay, LocalTime, UTC, MakeDay, MakeDate, TimeClip) under their
  standard names. All time values that occur are integers of magnitude below \<open>2^53\<close>, so
  the arithmetic on them is exact and they are modelled as \<open>int\<close>; NaN is \<open>None\<close>.

  The local time zone is a parameter \<open>tza\<close>: the offset of local time from UTC in
  milliseconds, constant over time (a zone without daylight-saving transitions), of
  magnitude below one day.
\<close>

type_synonym number = "int option"

type_synonym Date = "int option"

datatype js_error = RangeError | TypeError

definition msPerDay :: int where
  "msPerDay = 86400000"

definition Day :: "int \<Rightarrow> int" where
  "Day t = t div msPerDay"

definition TimeWithinDay :: "int \<Rightarrow> int" where
  "TimeWithinDay t = t mod msPerDay"

definition DaysInYear :: "int \<Rightarrow> int" where
  "DaysInYear y =
     (if y mod 4 \<noteq> 0 then 365
      else if y mod 100 \<noteq> 0 then 366
      else if y mod 400 \<noteq> 0 then 365
      else 366)"

definition DayFromYear :: "int \<Rightarrow> int" where
  "DayFromYear y =
     365 * (y - 1970) + (y - 1969) div 4 - (y - 1901) div 100 + (y - 1601) div 400"

text \<open>
  The standard defines YearFromTime(t) as the largest integer \<open>y\<close> with
  TimeFromYear(y) \<open>\<le>\<close> t. \<open>YearFromDay\<close> computes it from the day number: an estimate
  from the mean length of a year, corrected by at most one year.
  Lemma \<open>YearFromDay_charact\<close> below shows that it is the year of the standard.
\<close>

definition YearFromDay :: "int \<Rightarrow> int" where
  "YearFromDay n =
     (let y = 1970 + (400 * n) div 146097
      in if DayFromYear (y + 1) \<le> n then y + 1
         else if n < DayFromYear y then y - 1
         else y)"

definition YearFromTime :: "int \<Rightarrow> int" where
  "YearFromTime t = YearFromDay (Day t)"

definition InLeapYear :: "int \<Rightarrow> int" where
  "InLeapYear t = (if DaysInYear (YearFromTime t) = 366 then 1 else 0)"

definition DayWithinYear :: "int \<Rightarrow> int" where
  "DayWithinYear t = Day t - DayFromYear (YearFromTime t)"

text \<open>
  The number of days of the year before the first of month \<open>m\<close> (0 = January), for a
  common (\<open>leap = 0\<close>) or a leap year (\<open>leap = 1\<close>): the bounds of the standard's table
  for MonthFromTime and DateFromTime.
\<close>

definition DaysBeforeMonth :: "int \<Rightarrow> int \<Rightarrow> int" where
  "DaysBeforeMonth leap m =
     (if m = 0 then 0
      else if m = 1 then 31
      else if m = 2 then 59 + leap
      else if m = 3 then 90 + leap
      else if m = 4 then 120 + leap
      else if m = 5 then 151 + leap
      else if m = 6 then 181 + leap
      else if m = 7 then 212 + leap
      else if m = 8 then 243 + leap
      else if m = 9 then 273 + leap
      else if m = 10 then 304 + leap
      else 334 + leap)"

definition MonthFromTime :: "int \<Rightarrow> int" where
  "MonthFromTime t =
     (let d = DayWithinYear t; leap = InLeapYear t
      in if d < 31 then 0
         else if d < 59 + leap then 1
         else if d < 90 + leap then 2
         else if d < 120 + leap then 3
         else if d < 151 + leap then 4
         else if d < 181 + leap then 5
         else if d < 212 + leap then 6
         else if d < 243 + leap then 7
         else if d < 273 + leap then 8
         else if d < 304 + leap then 9
         else if d < 334 + leap then 10
         else 11)"

definition DateFromTime :: "int \<Rightarrow> int" where
  "DateFromTime t =
     DayWithinYear t - DaysBeforeMonth (InLeapYear t) (MonthFromTime t) + 1"

definition WeekDay :: "int \<Rightarrow> int" where
  "WeekDay t = (Day t + 4) mod 7"

definition HourFromTime :: "int \<Rightarrow> int" where
  "HourFromTime t = (t div 3600000) mod 24"

definition MinFromTime :: "int \<Rightarrow> int" where
  "MinFromTime t = (t div 60000) mod 60"

definition SecFromTime :: "int \<Rightarrow> int" where
  "SecFromTime t = (t div 1000) mod 60"

definition msFromTime :: "int \<Rightarrow> int" where
  "msFromTime t = t mod 1000"

definition LocalTime :: "int \<Rightarrow> int \<Rightarrow> int" where
  "LocalTime tza t = t + tza"

definition UTC :: "int \<Rightarrow> int \<Rightarrow> int" where
  "UTC tza t = t - tza"

text \<open>
  MakeDay(year, month, date): the day number of the first of the month
  \<open>month mod 12\<close> of the year \<open>year + month div 12\<close>, plus \<open>date - 1\<close>. Lemma
  \<open>MakeDay_fields\<close> below shows that it returns the day of every time value from that
  time value's own year, month and date.
\<close>

definition MakeDay :: "int \<Rightarrow> int \<Rightarrow> int \<Rightarrow> int" where
  "MakeDay year month date =
     (let ym = year + month div 12; mn = month mod 12
      in DayFromYear ym + DaysBeforeMonth (if DaysInYear ym = 366 then 1 else 0) mn
         + date - 1)"

definition MakeDate :: "int \<Rightarrow> int \<Rightarrow> int" where
  "MakeDate day time = day * msPerDay + time"

definition TimeClip :: "int \<Rightarrow> number" where
  "TimeClip t = (if 8640000000000000 < \<bar>t\<bar> then None else Some t)"

subsection \<open>Methods of Date\<close>

definition getFullYear :: "int \<Rightarrow> Date \<Rightarrow> number" where
  "getFullYear tza d = map_option (\<lambda>t. YearFromTime (LocalTime tza t)) d"

definition getMonth :: "int \<Rightarrow> Date \<Rightarrow> number" where
  "getMonth tza d = map_option (\<lambda>t. MonthFromTime (LocalTime tza t)) d"

definition getDate :: "int \<Rightarrow> Date \<Rightarrow> number" where
  "getDate tza d = map_option (\<lambda>t. DateFromTime (LocalTime tza t)) d"

definition getDay :: "int \<Rightarrow> Date \<Rightarrow> number" where
  "getDay tza d = map_option (\<lambda>t. WeekDay (LocalTime tza t)) d"

text \<open>
  \<^verbatim>\<open>d.setDate(dt)\<close> sets the day of the month of \<open>d\<close> in local time, keeping the local
  time of day, and returns the new time value, which is also the new value of \<open>d\<close>.
\<close>

definition setDate :: "int \<Rightarrow> Date \<Rightarrow> number \<Rightarrow> number" where
  "setDate tza d dt =
     (case d of
        None \<Rightarrow> None
      | Some t0 \<Rightarrow>
          (case dt of
             None \<Rightarrow> None
           | Some n \<Rightarrow>
               (let t = LocalTime tza t0;
                    newDate = MakeDate (MakeDay (YearFromTime t) (MonthFromTime t) n)
                                       (TimeWithinDay t)
                in TimeClip (UTC tza newDate))))"

text \<open>\<^verbatim>\<open>Date.UTC(year, month, date)\<close>: a year from 0 to 99 stands for 1900 + year.\<close>

definition Date_UTC :: "number \<Rightarrow> number \<Rightarrow> number \<Rightarrow> number" where
  "Date_UTC year month date =
     (case year of
        None \<Rightarrow> None
      | Some y \<Rightarrow>
          (case month of
             None \<Rightarrow> None
           | Some m \<Rightarrow>
               (case date of
                  None \<Rightarrow> None
                | Some dt \<Rightarrow>
                    (let yr = (if 0 \<le> y \<and> y \<le> 99 then 1900 + y else y)
                     in TimeClip (MakeDate (MakeDay yr m dt) 0)))))"

text \<open>\<^verbatim>\<open>new Date(value)\<close> for a number or for another Date.\<close>

definition new_Date :: "number \<Rightarrow> Date" where
  "new_Date v = (case v of None \<Rightarrow> None | Some t \<Rightarrow> TimeClip t)"


definition num_plus :: "number \<Rightarrow> number \<Rightarrow> number" where
  "num_plus a b =
     (case a of None \<Rightarrow> None
      | Some x \<Rightarrow> (case b of None \<Rightarrow> None | Some y \<Rightarrow> Some (x + y)))"

definition num_minus :: "number \<Rightarrow> number \<Rightarrow> number" where
  "num_minus a b =
     (case a of None \<Rightarrow> None
      | Some x \<Rightarrow> (case b of None \<Rightarrow> None | Some y \<Rightarrow> Some (x - y)))"

subsection \<open>Date strings\<close>

text \<open>
  Date strings are ASCII and modelled as \<open>string\<close>. \<open>pad w n\<close> writes the last
  \<open>w\<close> decimal digits of \<open>n\<close>.
\<close>

definition digit :: "int \<Rightarrow> char" where
  "digit d = ''0123456789'' ! nat (d mod 10)"

fun pad :: "nat \<Rightarrow> int \<Rightarrow> string" where
  "pad 0 n = []"
| "pad (Suc w) n = pad w (n div 10) @ [digit (n mod 10)]"

text \<open>
  \<^verbatim>\<open>d.toISOString()\<close>: the UTC fields of the time value as
  \<^verbatim>\<open>YYYY-MM-DDTHH:mm:ss.sssZ\<close>; a year outside 0 to 9999 is written with a sign and six
  digits. It throws a RangeError for an invalid date.
\<close>

definition toISOString :: "Date \<Rightarrow> js_error + string" where
  "toISOString d =
     (case d of
        None \<Rightarrow> Inl RangeError
      | Some t \<Rightarrow>
          (let y = YearFromTime t;
               year = (if 0 \<le> y \<and> y \<le> 9999 then pad 4 y
                       else (if y < 0 then ''-'' else ''+'') @ pad 6 \<bar>y\<bar>)
           in Inr (year @ ''-'' @ pad 2 (MonthFromTime t + 1) @ ''-'' @ pad 2 (DateFromTime t)
                   @ ''T'' @ pad 2 (HourFromTime t) @ '':'' @ pad 2 (MinFromTime t)
                   @ '':'' @ pad 2 (SecFromTime t) @ ''.'' @ pad 3 (msFromTime t) @ ''Z'')))"

text \<open>\<^verbatim>\<open>s.split(sep)[0]\<close> for a separator of one character.\<close>

definition split_first :: "char \<Rightarrow> string \<Rightarrow> string" where
  "split_first sep s = takeWhile (\<lambda>c. c \<noteq> sep) s"

definition digit_val :: "char \<Rightarrow> int option" where
  "digit_val c =
     (let n = (of_char c :: nat)
      in if 48 \<le> n \<and> n \<le> 57 then Some (int n - 48) else None)"

definition num_step :: "int option \<Rightarrow> char \<Rightarrow> int option" where
  "num_step acc c =
     (case acc of
        None \<Rightarrow> None
      | Some a \<Rightarrow> (case digit_val c of None \<Rightarrow> None | Some d \<Rightarrow> Some (10 * a + d)))"

definition num :: "string \<Rightarrow> int option" where
  "num cs = foldl num_step (Some 0) cs"

text \<open>
  \<^verbatim>\<open>new Date(s)\<close> for a string \<open>s\<close>. The model covers the date-only forms
  \<^verbatim>\<open>YYYY-MM-DD\<close> and \<^verbatim>\<open>+YYYYYY-MM-DD\<close>, \<^verbatim>\<open>-YYYYYY-MM-DD\<close> of the standard's date-time
  string format, which are read as UTC midnight; these are the strings that
  \<^verbatim>\<open>formatDateToYYYYMMDD\<close> produces. Every other string is taken to be an invalid date.
\<close>

definition parse_fields :: "int option \<Rightarrow> int option \<Rightarrow> int option \<Rightarrow> number" where
  "parse_fields year month date =
     (case year of
        None \<Rightarrow> None
      | Some y \<Rightarrow>
          (case month of
             None \<Rightarrow> None
           | Some m \<Rightarrow>
               (case date of
                  None \<Rightarrow> None
                | Some d \<Rightarrow>
                    if 1 \<le> m \<and> m \<le> 12 \<and> 1 \<le> d \<and> d \<le> 31
                    then TimeClip (MakeDate (MakeDay y (m - 1) d) 0)
                    else None)))"

definition Date_parse :: "string \<Rightarrow> Date" where
  "Date_parse s =
     (if length s = 10 \<and> s ! 4 = CHR ''-'' \<and> s ! 7 = CHR ''-''
      then parse_fields (num (take 4 s)) (num (take 2 (drop 5 s))) (num (drop 8 s))
      else if length s = 13 \<and> s ! 0 = CHR ''+'' \<and> s ! 7 = CHR ''-'' \<and> s ! 10 = CHR ''-''
      then parse_fields (num (take 6 (drop 1 s))) (num (take 2 (drop 8 s))) (num (drop 11 s))
      else if length s = 13 \<and> s ! 0 = CHR ''-'' \<and> s ! 7 = CHR ''-'' \<and> s ! 10 = CHR ''-''
              \<and> take 6 (drop 1 s) \<noteq> ''000000''
      then parse_fields (map_option uminus (num (take 6 (drop 1 s))))
             (num (take 2 (drop 8 s))) (num (drop 11 s))
      else None)"

section \<open>The week window of TaskView\<close>

text \<open>
  \<^verbatim>\<open>formatDateToYYYYMMDD\<close> (lines 12 to 15): the local year, month and day of
  \<open>date\<close>, taken as a UTC date and written in ISO form up to the \<^verbatim>\<open>T\<close>.
\<close>

definition formatDateToYYYYMMDD :: "int \<Rightarrow> Date \<Rightarrow> js_error + string" where
  "formatDateToYYYYMMDD tza date =
     (let utcDate = new_Date (Date_UTC (getFullYear tza date) (getMonth tza date)
                                        (getDate tza date))
      in case toISOString utcDate of
           Inl e \<Rightarrow> Inl e
         | Inr s \<Rightarrow> Inr (split_first CHR ''T'' s))"

text \<open>
  \<^verbatim>\<open>getStartOfWeek\<close> (lines 18 to 22). The call \<^verbatim>\<open>date.setDate(diff)\<close> also moves the
  argument \<open>date\<close> to the returned time value; no caller reads the argument again.
\<close>

definition getStartOfWeek :: "int \<Rightarrow> Date \<Rightarrow> Date" where
  "getStartOfWeek tza date =
     (let day = getDay tza date;
          diff = num_minus (getDate tza date)
                   (case day of None \<Rightarrow> None
                    | Some w \<Rightarrow> Some (if w = 0 then 6 else w - 1))
      in new_Date (setDate tza date diff))"

text \<open>\<^verbatim>\<open>getEndOfWeek\<close> (lines 25 to 29).\<close>

definition getEndOfWeek :: "int \<Rightarrow> Date \<Rightarrow> Date" where
  "getEndOfWeek tza startOfWeek =
     (let endOfWeek = new_Date startOfWeek
      in setDate tza endOfWeek (num_plus (getDate tza startOfWeek) (Some 6)))"

text \<open>\<^verbatim>\<open>generateWeekDates\<close> (lines 32 to 40): the loop over \<open>i = 0, \<dots>, 6\<close>.\<close>

function generateWeekDates_loop :: "int \<Rightarrow> Date \<Rightarrow> nat \<Rightarrow> Date list \<Rightarrow> Date list" where
  "generateWeekDates_loop tza startOfWeek i weekDates =
     (if i < 7
      then (let date = new_Date startOfWeek;
                date' = setDate tza date (num_plus (getDate tza startOfWeek) (Some (int i)))
            in generateWeekDates_loop tza startOfWeek (i + 1) (weekDates @ [date']))
      else weekDates)"
  by pat_completeness auto
termination
  by (relation "measure (\<lambda>(tza, startOfWeek, i, weekDates). 7 - i)") auto

declare generateWeekDates_loop.simps [simp del]

definition generateWeekDates :: "int \<Rightarrow> Date \<Rightarrow> Date list" where
  "generateWeekDates tza startOfWeek = generateWeekDates_loop tza startOfWeek 0 []"

text \<open>
  \<^verbatim>\<open>navigateWeek\<close> (lines 119 to 123) and \<^verbatim>\<open>resetToToday\<close> (lines 125 to 127): the
  result is the string handed to \<^verbatim>\<open>setSelectedDate\<close>, or the error thrown before that
  call. \<open>now\<close> is the time value of \<^verbatim>\<open>new Date()\<close>.
\<close>

definition navigateWeek :: "int \<Rightarrow> string \<Rightarrow> string \<Rightarrow> js_error + string" where
  "navigateWeek tza selectedDate direction =
     (let newDate = Date_parse selectedDate;
          newDate' = setDate tza newDate
                       (num_plus (getDate tza newDate)
                          (Some (if direction = ''next'' then 7 else - 7)))
      in formatDateToYYYYMMDD tza newDate')"

definition resetToToday :: "int \<Rightarrow> int \<Rightarrow> js_error + string" where
  "resetToToday tza now = formatDateToYYYYMMDD tza (new_Date (Some now))"


section \<open>Tasks, the remote service and the state of the view\<close>

text \<open>
  Free text (the name of a task, the input field) is a list of UTF-16 code units, the
  characters of the host language; date strings stay \<open>string\<close>.
\<close>

type_synonym js_string = "nat list"

record Task =
  task_id :: nat
  task_name :: js_string
  task_completed :: bool
  task_date :: string

record taskData =
  td_name :: js_string
  td_completed :: bool
  td_date :: string

text \<open>
  A request to \<^verbatim>\<open>apiService\<close> returns a promise; the handlers await it, so only the way
  it settles matters: fulfilled with a value, or rejected with a reason. The service is
  given by the outcome of each request.
\<close>

datatype 'a promise = Fulfilled 'a | Rejected string

record apiService =
  getTasksByDate :: "string \<Rightarrow> Task list promise"
  addTask :: "taskData \<Rightarrow> Task promise"
  toggleTaskCompletion :: "nat \<Rightarrow> Task promise"
  deleteTask :: "nat \<Rightarrow> unit promise"

datatype api_call =
  Call_getTasksByDate string
| Call_addTask taskData
| Call_toggleTaskCompletion nat
| Call_deleteTask nat

text \<open>
  The state of the component: the text of the input field (\<^verbatim>\<open>newTask\<close>) and the tasks
  of the week keyed by date string (\<^verbatim>\<open>tasksByDate\<close>).
\<close>

record view_state =
  newTask :: js_string
  tasksByDate :: "string \<rightharpoonup> Task list"

text \<open>
  What one run of a handler does: the requests it sent, in order; the messages it wrote
  with \<^verbatim>\<open>console.error\<close> (message and reason); the state after its state updates
  (\<open>Inl\<close> when an updater function throws, so that no new state exists); and the
  error that leaves the handler, if one does.
\<close>

record run =
  calls :: "api_call list"
  logged :: "(string \<times> string) list"
  after :: "js_error + view_state"
  thrown :: "js_error option"

text \<open>\<^verbatim>\<open>String.prototype.trim\<close>: white space and line terminators of the standard.\<close>

definition isWhiteSpace :: "nat \<Rightarrow> bool" where
  "isWhiteSpace c \<longleftrightarrow>
     c \<in> set [9, 10, 11, 12, 13, 32, 160, 5760, 8232, 8233, 8239, 8287, 12288, 65279]
     \<or> (8192 \<le> c \<and> c \<le> 8202)"

definition trim :: "js_string \<Rightarrow> js_string" where
  "trim s = rev (dropWhile isWhiteSpace (rev (dropWhile isWhiteSpace s)))"

section \<open>The handlers of TaskView\<close>

text \<open>\<^verbatim>\<open>fetchTasksForWeek\<close> (lines 43 to 58): the loop, then the single state update.\<close>

record fetch_acc =
  tasksByDateTemp :: "string \<rightharpoonup> Task list"
  requests :: "api_call list"
  errors :: "(string \<times> string) list"

fun fetchTasksForWeek_loop ::
  "int \<Rightarrow> apiService \<Rightarrow> Date list \<Rightarrow> fetch_acc \<Rightarrow> js_error option \<times> fetch_acc" where
  "fetchTasksForWeek_loop tza api [] acc = (None, acc)"
| "fetchTasksForWeek_loop tza api (date # rest) acc =
     (case formatDateToYYYYMMDD tza date of
        Inl e \<Rightarrow> (Some e, acc)
      | Inr formattedDate \<Rightarrow>
          (case getTasksByDate api formattedDate of
             Fulfilled tasks \<Rightarrow>
               fetchTasksForWeek_loop tza api rest
                 (acc\<lparr>tasksByDateTemp := (tasksByDateTemp acc)(formattedDate \<mapsto> tasks),
                      requests := requests acc @ [Call_getTasksByDate formattedDate]\<rparr>)
           | Rejected error \<Rightarrow>
               fetchTasksForWeek_loop tza api rest
                 (acc\<lparr>requests := requests acc @ [Call_getTasksByDate formattedDate],
                      errors := errors acc
                        @ [(''Error fetching tasks for date '' @ formattedDate @ '':'',
                            error)]\<rparr>)))"

definition fetchTasksForWeek :: "int \<Rightarrow> apiService \<Rightarrow> view_state \<Rightarrow> Date list \<Rightarrow> run" where
  "fetchTasksForWeek tza api st weekDates =
     (case fetchTasksForWeek_loop tza api weekDates
             \<lparr>tasksByDateTemp = Map.empty, requests = [], errors = []\<rparr> of
        (Some e, acc) \<Rightarrow>
          \<lparr>calls = requests acc, logged = errors acc, after = Inr st, thrown = Some e\<rparr>
      | (None, acc) \<Rightarrow>
          \<lparr>calls = requests acc, logged = errors acc,
           after = Inr (st\<lparr>tasksByDate := tasksByDateTemp acc\<rparr>), thrown = None\<rparr>)"

text \<open>
  The week of the selected date (lines 130 to 133, and again lines 62 to 67):
  \<^verbatim>\<open>selectedDate\<close> is the date string of the calendar context.
\<close>

definition correctedDate :: "int \<Rightarrow> string \<Rightarrow> Date" where
  "correctedDate tza selectedDate =
     (let d = Date_parse selectedDate
      in setDate tza d (num_plus (getDate tza d) (Some 1)))"

definition startOfWeek :: "int \<Rightarrow> string \<Rightarrow> Date" where
  "startOfWeek tza selectedDate = getStartOfWeek tza (correctedDate tza selectedDate)"

definition weekDates :: "int \<Rightarrow> string \<Rightarrow> Date list" where
  "weekDates tza selectedDate = generateWeekDates tza (startOfWeek tza selectedDate)"

text \<open>The effect on a change of \<^verbatim>\<open>selectedDate\<close> (lines 61 to 70).\<close>

definition useEffect :: "int \<Rightarrow> apiService \<Rightarrow> view_state \<Rightarrow> string \<Rightarrow> run" where
  "useEffect tza api st selectedDate = fetchTasksForWeek tza api st (weekDates tza selectedDate)"

text \<open>\<^verbatim>\<open>handleAddTask\<close> (lines 72 to 91).\<close>

definition handleAddTask :: "int \<Rightarrow> apiService \<Rightarrow> view_state \<Rightarrow> Date \<Rightarrow> run" where
  "handleAddTask tza api st date =
     (if trim (newTask st) \<noteq> []
      then
        (case formatDateToYYYYMMDD tza date of
           Inl e \<Rightarrow> \<lparr>calls = [], logged = [], after = Inr st, thrown = Some e\<rparr>
         | Inr formattedDate \<Rightarrow>
             (let taskData = \<lparr>td_name = newTask st, td_completed = False,
                              td_date = formattedDate\<rparr>
              in case addTask api taskData of
                   Fulfilled response \<Rightarrow>
                     \<lparr>calls = [Call_addTask taskData], logged = [],
                      after = Inr (st\<lparr>tasksByDate := (tasksByDate st)
                                 (formattedDate \<mapsto>
                                    (case tasksByDate st formattedDate of
                                       None \<Rightarrow> []
                                     | Some tasks \<Rightarrow> tasks) @ [response]),
                               newTask := []\<rparr>),
                      thrown = None\<rparr>
                 | Rejected error \<Rightarrow>
                     \<lparr>calls = [Call_addTask taskData],
                      logged = [(''Error adding task:'', error)],
                      after = Inr st, thrown = None\<rparr>))
      else \<lparr>calls = [], logged = [], after = Inr st, thrown = None\<rparr>)"

text \<open>
  \<^verbatim>\<open>handleToggleCompletion\<close> (lines 93 to 105). The updater reads
  \<^verbatim>\<open>prevTasksByDate[taskDate].map\<close>: with no entry for \<open>taskDate\<close> that is a property
  read on \<^verbatim>\<open>undefined\<close>, a TypeError, thrown when the updater is run and not inside the
  handler's \<^verbatim>\<open>try\<close>.
\<close>

definition handleToggleCompletion :: "apiService \<Rightarrow> view_state \<Rightarrow> nat \<Rightarrow> string \<Rightarrow> run" where
  "handleToggleCompletion api st taskId taskDate =
     (case toggleTaskCompletion api taskId of
        Fulfilled updatedTask \<Rightarrow>
          \<lparr>calls = [Call_toggleTaskCompletion taskId], logged = [],
           after =
             (case tasksByDate st taskDate of
                None \<Rightarrow> Inl TypeError
              | Some tasks \<Rightarrow>
                  Inr (st\<lparr>tasksByDate := (tasksByDate st)
                         (taskDate \<mapsto>
                            map (\<lambda>task. if task_id task = taskId then updatedTask else task)
                              tasks)\<rparr>)),
           thrown = None\<rparr>
      | Rejected error \<Rightarrow>
          \<lparr>calls = [Call_toggleTaskCompletion taskId],
           logged = [(''Error toggling task completion:'', error)],
           after = Inr st, thrown = None\<rparr>)"

text \<open>\<^verbatim>\<open>handleDeleteTask\<close> (lines 107 to 117); the updater reads \<^verbatim>\<open>.filter\<close> likewise.\<close>

definition handleDeleteTask :: "apiService \<Rightarrow> view_state \<Rightarrow> nat \<Rightarrow> string \<Rightarrow> run" where
  "handleDeleteTask api st taskId taskDate =
     (case deleteTask api taskId of
        Fulfilled u \<Rightarrow>
          \<lparr>calls = [Call_deleteTask taskId], logged = [],
           after =
             (case tasksByDate st taskDate of
                None \<Rightarrow> Inl TypeError
              | Some tasks \<Rightarrow>
                  Inr (st\<lparr>tasksByDate := (tasksByDate st)
                         (taskDate \<mapsto> filter (\<lambda>task. task_id task \<noteq> taskId) tasks)\<rparr>)),
           thrown = None\<rparr>
      | Rejected error \<Rightarrow>
          \<lparr>calls = [Call_deleteTask taskId],
           logged = [(''Error deleting task:'', error)],
           after = Inr st, thrown = None\<rparr>)"


section \<open>Notions used to state the properties\<close>

text \<open>The local calendar day of a Date, as a day number (days since 1970-01-01).\<close>

definition localDay :: "int \<Rightarrow> Date \<Rightarrow> number" where
  "localDay tza d = map_option (\<lambda>t. Day (LocalTime tza t)) d"

text \<open>The date part of the ISO string of the UTC day with number \<open>n\<close>.\<close>

definition dateString :: "int \<Rightarrow> string" where
  "dateString n =
     (let t = n * msPerDay; y = YearFromTime t;
          year = (if 0 \<le> y \<and> y \<le> 9999 then pad 4 y
                  else (if y < 0 then ''-'' else ''+'') @ pad 6 \<bar>y\<bar>)
      in year @ ''-'' @ pad 2 (MonthFromTime t + 1) @ ''-'' @ pad 2 (DateFromTime t))"

text \<open>Formatting a Date and reading the string back with \<^verbatim>\<open>new Date\<close>.\<close>

definition format_then_parse :: "int \<Rightarrow> Date \<Rightarrow> Date" where
  "format_then_parse tza date =
     (case formatDateToYYYYMMDD tza date of Inl e \<Rightarrow> None | Inr s \<Rightarrow> Date_parse s)"

text \<open>The keys under which the dates of a list are stored: their formatted dates.\<close>

fun formattedDates :: "int \<Rightarrow> Date list \<Rightarrow> string list" where
  "formattedDates tza [] = []"
| "formattedDates tza (date # rest) =
     (case formatDateToYYYYMMDD tza date of
        Inl e \<Rightarrow> formattedDates tza rest
      | Inr s \<Rightarrow> s # formattedDates tza rest)"

text \<open>The keys of the state are the formatted dates of the week of \<open>selectedDate\<close>.\<close>

definition keys_are_week :: "int \<Rightarrow> string \<Rightarrow> view_state \<Rightarrow> bool" where
  "keys_are_week tza selectedDate st \<longleftrightarrow>
     dom (tasksByDate st) = set (formattedDates tza (weekDates tza selectedDate))"

text \<open>
  Values at which the theorems below are instantiated: a task, a state with a stale entry
  of an earlier week, a service that fulfils every request, one that rejects the tasks of
  2024-06-12 only, and one that rejects every request.
\<close>

definition demo_task :: Task where
  "demo_task = \<lparr>task_id = 7, task_name = [98, 114, 101, 97, 100], task_completed = False,
                 task_date = ''2024-06-10''\<rparr>"

definition demo_state :: view_state where
  "demo_state = \<lparr>newTask = [109, 105, 108, 107],
                  tasksByDate = Map.empty(''2024-06-03'' \<mapsto> [])\<rparr>"

definition online_api :: apiService where
  "online_api =
     \<lparr>getTasksByDate = (\<lambda>d. if d = ''2024-06-10'' then Fulfilled [demo_task] else Fulfilled []),
      addTask = (\<lambda>td. Fulfilled \<lparr>task_id = 8, task_name = td_name td,
                                  task_completed = td_completed td, task_date = td_date td\<rparr>),
      toggleTaskCompletion = (\<lambda>i. Fulfilled (demo_task\<lparr>task_completed := True\<rparr>)),
      deleteTask = (\<lambda>i. Fulfilled ())\<rparr>"

definition partial_api :: apiService where
  "partial_api =
     online_api\<lparr>getTasksByDate :=
       (\<lambda>d. if d = ''2024-06-12'' then Rejected ''offline'' else getTasksByDate online_api d)\<rparr>"

definition offline_api :: apiService where
  "offline_api =
     \<lparr>getTasksByDate = (\<lambda>d. Rejected ''offline''),
      addTask = (\<lambda>td. Rejected ''offline''),
      toggleTaskCompletion = (\<lambda>i. Rejected ''offline''),
      deleteTask = (\<lambda>i. Rejected ''offline'')\<rparr>"

section \<open>The calendar\<close>

lemma div_bounds:
  fixes a k :: int
  assumes "0 < k"
  shows "k * (a div k) \<le> a" "a < k * (a div k) + k"
proof -
  have "a = k * (a div k) + a mod k" by simp
  moreover have "0 \<le> a mod k" "a mod k < k" using assms by simp_all
  ultimately show "k * (a div k) \<le> a" "a < k * (a div k) + k" by linarith+
qed

lemma DayFromYear_est_aux:
  fixes y a b c :: int
  assumes "4 * a \<le> y - 1969" "y - 1969 < 4 * a + 4"
    and "100 * b \<le> y - 1901" "y - 1901 < 100 * b + 100"
    and "400 * c \<le> y - 1601" "y - 1601 < 400 * c + 400"
  shows "146097 * (y - 1970) - 800 \<le> 400 * (365 * (y - 1970) + a - b + c)"
    and "400 * (365 * (y - 1970) + a - b + c) \<le> 146097 * (y - 1970) + 800"
proof -
  show "146097 * (y - 1970) - 800 \<le> 400 * (365 * (y - 1970) + a - b + c)"
    using assms by (simp add: algebra_simps)
  show "400 * (365 * (y - 1970) + a - b + c) \<le> 146097 * (y - 1970) + 800"
    using assms by (simp add: algebra_simps)
qed

lemma DayFromYear_est:
  "146097 * (y - 1970) - 800 \<le> 400 * DayFromYear y"
  "400 * DayFromYear y \<le> 146097 * (y - 1970) + 800"
  unfolding DayFromYear_def
  by (rule DayFromYear_est_aux; rule div_bounds; simp)+

lemma pred_div:
  fixes y k :: int
  assumes "0 < k"
  shows "(y - 1) div k = (if y mod k = 0 then y div k - 1 else y div k)"
proof (cases "y mod k = 0")
  case True
  have "y - 1 = k * (y div k - 1) + (k - 1)"
    using div_mult_mod_eq[of y k] True by (simp add: algebra_simps)
  then have "(y - 1) div k = y div k - 1"
    using assms by (intro int_div_pos_eq[where r = "k - 1"]) auto
  with True show ?thesis by simp
next
  case False
  have "y - 1 = k * (y div k) + (y mod k - 1)"
    using div_mult_mod_eq[of y k] by (simp add: algebra_simps)
  moreover have "0 \<le> y mod k - 1" "y mod k - 1 < k"
    using False pos_mod_sign[OF assms, of y] pos_mod_bound[OF assms, of y] by linarith+
  ultimately have "(y - 1) div k = y div k"
    by (intro int_div_pos_eq[where r = "y mod k - 1"]) auto
  with False show ?thesis by simp
qed

lemma DayFromYear_alt:
  "DayFromYear y = 365 * (y - 1970) + ((y - 1) div 4 - 492) - ((y - 1) div 100 - 19) + ((y - 1) div 400 - 4)"
proof -
  have "(y - 1969) div 4 = (y - 1 + (-492) * 4) div 4" by simp
  also have "\<dots> = (y - 1) div 4 - 492" by (subst div_mult_self1) simp_all
  finally have a: "(y - 1969) div 4 = (y - 1) div 4 - 492" .
  have "(y - 1901) div 100 = (y - 1 + (-19) * 100) div 100" by simp
  also have "\<dots> = (y - 1) div 100 - 19" by (subst div_mult_self1) simp_all
  finally have b: "(y - 1901) div 100 = (y - 1) div 100 - 19" .
  have "(y - 1601) div 400 = (y - 1 + (-4) * 400) div 400" by simp
  also have "\<dots> = (y - 1) div 400 - 4" by (subst div_mult_self1) simp_all
  finally have c: "(y - 1601) div 400 = (y - 1) div 400 - 4" .
  show ?thesis unfolding DayFromYear_def a b c ..
qed

lemma mod_chain:
  fixes y :: int
  shows "y mod 400 = 0 \<Longrightarrow> y mod 100 = 0" "y mod 100 = 0 \<Longrightarrow> y mod 4 = 0"
proof -
  have d: "(100::int) dvd 400" "(4::int) dvd 100" by simp_all
  show "y mod 400 = 0 \<Longrightarrow> y mod 100 = 0"
    using dvd_trans[OF d(1), of y] by (simp add: mod_eq_0_iff_dvd)
  show "y mod 100 = 0 \<Longrightarrow> y mod 4 = 0"
    using dvd_trans[OF d(2), of y] by (simp add: mod_eq_0_iff_dvd)
qed

lemma DayFromYear_step: "DayFromYear (y + 1) = DayFromYear y + DaysInYear y"
  using mod_chain[of y]
  by (simp add: DayFromYear_alt[of "y + 1"] DayFromYear_alt[of y] pred_div DaysInYear_def)


lemma DaysInYear_ge: "365 \<le> DaysInYear y" "DaysInYear y \<le> 366"
  by (simp_all add: DaysInYear_def)

lemma DayFromYear_less: "DayFromYear y < DayFromYear (y + 1)"
  using DayFromYear_step[of y] DaysInYear_ge(1)[of y] by linarith

lemma DayFromYear_mono_nat: "DayFromYear y \<le> DayFromYear (y + int k)"
proof (induction k)
  case 0
  show ?case by simp
next
  case (Suc k)
  have e: "y + int (Suc k) = (y + int k) + 1" by simp
  have "DayFromYear (y + int k) < DayFromYear ((y + int k) + 1)" by (rule DayFromYear_less)
  then show ?case unfolding e using Suc by linarith
qed

lemma DayFromYear_mono: "y \<le> z \<Longrightarrow> DayFromYear y \<le> DayFromYear z"
  using DayFromYear_mono_nat[of y "nat (z - y)"] by simp

lemma YearFromDay_bounds:
  "DayFromYear (YearFromDay n) \<le> n" "n < DayFromYear (YearFromDay n + 1)"
proof -
  define y where "y = 1970 + (400 * n) div 146097"
  have 1: "146097 * (y - 1970) \<le> 400 * n" "400 * n < 146097 * (y - 1970) + 146097"
    using div_bounds[of 146097 "400 * n"] by (simp_all add: y_def)
  have A: "DayFromYear (y - 1) \<le> n"
    using DayFromYear_est(2)[of "y - 1"] 1 by (simp add: algebra_simps)
  have B: "n < DayFromYear (y + 2)"
    using DayFromYear_est(1)[of "y + 2"] 1 by (simp add: algebra_simps)
  have Y: "YearFromDay n = (if DayFromYear (y + 1) \<le> n then y + 1
         else if n < DayFromYear y then y - 1 else y)"
    by (simp add: YearFromDay_def y_def Let_def)
  show "DayFromYear (YearFromDay n) \<le> n" using A by (simp add: Y)
  have C: "y + 1 + 1 = y + 2" "y - 1 + 1 = y" by simp_all
  show "n < DayFromYear (YearFromDay n + 1)" using B by (simp add: Y C)
qed

lemma YearFromDay_charact:
  "YearFromDay n = y \<longleftrightarrow> DayFromYear y \<le> n \<and> n < DayFromYear (y + 1)"
proof
  assume "YearFromDay n = y"
  then show "DayFromYear y \<le> n \<and> n < DayFromYear (y + 1)"
    using YearFromDay_bounds[of n] by simp
next
  assume h: "DayFromYear y \<le> n \<and> n < DayFromYear (y + 1)"
  show "YearFromDay n = y"
  proof (rule ccontr)
    assume "YearFromDay n \<noteq> y"
    then consider "YearFromDay n + 1 \<le> y" | "y + 1 \<le> YearFromDay n" by linarith
    then show False
    proof cases
      case 1
      then show False
        using DayFromYear_mono[OF 1] YearFromDay_bounds(2)[of n] h by linarith
    next
      case 2
      then show False
        using DayFromYear_mono[OF 2] YearFromDay_bounds(1)[of n] h by linarith
    qed
  qed
qed

lemma DayWithinYear_bounds:
  "0 \<le> DayWithinYear t" "DayWithinYear t < DaysInYear (YearFromTime t)"
  using YearFromDay_bounds[of "Day t"] DayFromYear_step[of "YearFromTime t"]
  by (simp_all add: DayWithinYear_def YearFromTime_def)

lemma MonthFromTime_range: "0 \<le> MonthFromTime t" "MonthFromTime t \<le> 11"
  by (simp_all add: MonthFromTime_def Let_def)

lemma DateFromTime_range: "1 \<le> DateFromTime t" "DateFromTime t \<le> 31"
proof -
  have l: "InLeapYear t = 0 \<or> InLeapYear t = 1" by (simp add: InLeapYear_def)
  have b: "DayWithinYear t < 365 + InLeapYear t"
    using DayWithinYear_bounds(2)[of t] DaysInYear_ge[of "YearFromTime t"]
    by (simp add: InLeapYear_def split: if_splits)
  show "1 \<le> DateFromTime t"
    using DayWithinYear_bounds(1)[of t] l
    by (auto simp add: DateFromTime_def MonthFromTime_def DaysBeforeMonth_def Let_def)
  show "DateFromTime t \<le> 31"
    using b l
    by (auto simp add: DateFromTime_def MonthFromTime_def DaysBeforeMonth_def Let_def)
qed

lemma MakeDay_fields:
  "MakeDay (YearFromTime t) (MonthFromTime t) (DateFromTime t) = Day t"
proof -
  have m: "MonthFromTime t div 12 = 0" "MonthFromTime t mod 12 = MonthFromTime t"
    using MonthFromTime_range[of t] by simp_all
  show ?thesis
    by (simp add: MakeDay_def m Let_def DateFromTime_def DayWithinYear_def InLeapYear_def)
qed

lemma MakeDay_date: "MakeDay y m (d + k) = MakeDay y m d + k"
  by (simp add: MakeDay_def Let_def)

section \<open>Arithmetic of dates\<close>

lemma Day_shift: "Day (t + k * msPerDay) = Day t + k"
  by (simp add: Day_def msPerDay_def)

lemma Day_mult: "Day (n * msPerDay) = n"
  by (simp add: Day_def msPerDay_def)

lemma TimeWithinDay_mult: "TimeWithinDay (n * msPerDay) = 0"
  by (simp add: TimeWithinDay_def msPerDay_def)

lemma Day_TimeWithinDay: "Day t * msPerDay + TimeWithinDay t = t"
  by (simp add: Day_def TimeWithinDay_def)

lemma WeekDay_shift: "WeekDay (t + k * msPerDay) = (WeekDay t + k) mod 7"
proof -
  have "WeekDay (t + k * msPerDay) = (Day t + k + 4) mod 7"
    by (simp only: WeekDay_def Day_shift)
  also have "Day t + k + 4 = (Day t + 4) + k" by simp
  also have "((Day t + 4) + k) mod 7 = ((Day t + 4) mod 7 + k) mod 7"
    by (simp only: mod_add_left_eq)
  finally show ?thesis by (simp only: WeekDay_def)
qed

lemma WeekDay_range: "0 \<le> WeekDay t" "WeekDay t < 7"
  by (simp_all add: WeekDay_def)

lemma Day_offset:
  assumes "\<bar>tza\<bar> < msPerDay"
  shows "Day (n * msPerDay + tza) = (if tza < 0 then n - 1 else n)"
proof -
  have "Day (n * msPerDay + tza) = Day tza + n"
    using Day_shift[of tza n] by (simp add: add.commute)
  moreover have "Day tza = (if tza < 0 then - 1 else 0)"
  proof (cases "tza < 0")
    case True
    have "tza = msPerDay * (- 1) + (tza + msPerDay)" by simp
    then have "tza div msPerDay = - 1"
      using assms True by (intro int_div_pos_eq[where r = "tza + msPerDay"]) auto
    with True show ?thesis by (simp add: Day_def)
  next
    case False
    then have "tza div msPerDay = 0" using assms by simp
    with False show ?thesis by (simp add: Day_def)
  qed
  ultimately show ?thesis by simp
qed

text \<open>The fields of a time value depend on its day only.\<close>

lemma fields_of_Day:
  "YearFromTime (Day t * msPerDay) = YearFromTime t"
  "MonthFromTime (Day t * msPerDay) = MonthFromTime t"
  "DateFromTime (Day t * msPerDay) = DateFromTime t"
  by (simp_all add: YearFromTime_def MonthFromTime_def DateFromTime_def DayWithinYear_def
      InLeapYear_def Day_mult)

lemma TimeClip_Some: "\<bar>t\<bar> \<le> 8640000000000000 \<Longrightarrow> TimeClip t = Some t"
  by (simp add: TimeClip_def)

lemma TimeClip_days: "\<bar>n\<bar> \<le> 100000000 \<Longrightarrow> TimeClip (n * msPerDay) = Some (n * msPerDay)"
  by (simp add: TimeClip_def msPerDay_def abs_mult)

lemma setDate_Some:
  "setDate tza (Some t) (Some n)
   = TimeClip (t + (n - DateFromTime (LocalTime tza t)) * msPerDay)"
proof -
  define lt where "lt = LocalTime tza t"
  have "MakeDay (YearFromTime lt) (MonthFromTime lt) n
        = MakeDay (YearFromTime lt) (MonthFromTime lt) (DateFromTime lt + (n - DateFromTime lt))"
    by simp
  also have "\<dots> = Day lt + (n - DateFromTime lt)"
    by (simp only: MakeDay_date MakeDay_fields)
  finally have m: "MakeDay (YearFromTime lt) (MonthFromTime lt) n = Day lt + (n - DateFromTime lt)" .
  have "MakeDate (Day lt + (n - DateFromTime lt)) (TimeWithinDay lt)
        = lt + (n - DateFromTime lt) * msPerDay"
    using Day_TimeWithinDay[of lt] by (simp add: MakeDate_def algebra_simps)
  then show ?thesis
    by (simp add: setDate_def Let_def m lt_def[symmetric]) (simp add: lt_def LocalTime_def UTC_def)
qed

lemma setDate_plus:
  "setDate tza (Some t) (num_plus (getDate tza (Some t)) (Some k)) = TimeClip (t + k * msPerDay)"
  by (simp add: num_plus_def getDate_def setDate_Some)

lemma setDate_minus:
  "setDate tza (Some t) (num_minus (getDate tza (Some t)) (Some k)) = TimeClip (t - k * msPerDay)"
  by (simp add: num_minus_def getDate_def setDate_Some algebra_simps)

lemma new_Date_TimeClip: "new_Date (TimeClip t) = TimeClip t"
  by (simp add: new_Date_def TimeClip_def)

lemma generateWeekDates_unroll:
  "generateWeekDates tza s =
     map (\<lambda>i. setDate tza (new_Date s) (num_plus (getDate tza s) (Some i))) [0, 1, 2, 3, 4, 5, 6]"
  by (simp add: generateWeekDates_def generateWeekDates_loop.simps Let_def)

section \<open>Date strings, written and read\<close>

lemma digit_val_digit: "0 \<le> k \<Longrightarrow> k \<le> 9 \<Longrightarrow> digit_val (digit k) = Some k"
proof -
  assume "0 \<le> k" "k \<le> 9"
  then have "k = 0 \<or> k = 1 \<or> k = 2 \<or> k = 3 \<or> k = 4 \<or> k = 5 \<or> k = 6 \<or> k = 7 \<or> k = 8 \<or> k = 9"
    by arith
  then show ?thesis
    by (elim disjE) (simp_all add: digit_def digit_val_def)
qed

lemma digit_not_T: "digit k \<noteq> CHR ''T''"
proof -
  have "0 \<le> k mod 10" "k mod 10 \<le> 9" by simp_all
  then have "k mod 10 = 0 \<or> k mod 10 = 1 \<or> k mod 10 = 2 \<or> k mod 10 = 3 \<or> k mod 10 = 4
      \<or> k mod 10 = 5 \<or> k mod 10 = 6 \<or> k mod 10 = 7 \<or> k mod 10 = 8 \<or> k mod 10 = 9"
    by arith
  then show ?thesis
    by (elim disjE) (simp_all add: digit_def)
qed

lemma length_pad: "length (pad w n) = w"
  by (induction w arbitrary: n) simp_all

lemma pad_not_T: "c \<in> set (pad w n) \<Longrightarrow> c \<noteq> CHR ''T''"
  by (induction w arbitrary: n) (auto simp add: digit_not_T digit_not_T[symmetric])

lemma num_snoc: "num (cs @ [c]) = num_step (num cs) c"
  by (simp add: num_def)

lemma num_pad: "0 \<le> n \<Longrightarrow> n < 10 ^ w \<Longrightarrow> num (pad w n) = Some n"
proof (induction w arbitrary: n)
  case 0
  then show ?case by (simp add: num_def)
next
  case (Suc w)
  have "0 \<le> n div 10" using Suc.prems by (simp add: pos_imp_zdiv_nonneg_iff)
  moreover have "n div 10 < 10 ^ w"
    using Suc.prems div_bounds(1)[of 10 n] by simp
  ultimately have "0 \<le> n div 10" "n div 10 < 10 ^ w" by simp_all
  then have "num (pad w (n div 10)) = Some (n div 10)" by (rule Suc.IH)
  moreover have "digit_val (digit (n mod 10)) = Some (n mod 10)"
    by (rule digit_val_digit) simp_all
  ultimately show ?case
    by (simp add: num_snoc num_step_def)
qed

lemma num_bounds: "num cs = Some v \<Longrightarrow> 0 \<le> v \<and> v < 10 ^ length cs"
proof (induction cs arbitrary: v rule: rev_induct)
  case Nil
  then show ?case by (simp add: num_def)
next
  case (snoc c cs)
  from snoc.prems obtain a d where a: "num cs = Some a" and d: "digit_val c = Some d"
      and v: "v = 10 * a + d"
    by (auto simp add: num_snoc num_step_def split: option.splits)
  have "0 \<le> d" "d \<le> 9" using d by (auto simp add: digit_val_def Let_def split: if_splits)
  moreover have "0 \<le> a" "a + 1 \<le> 10 ^ length cs" using snoc.IH[OF a] by simp_all
  ultimately show ?case using v by (simp add: algebra_simps)
qed

lemma dateString_not_T: "c \<in> set (dateString n) \<Longrightarrow> c \<noteq> CHR ''T''"
  by (auto simp add: dateString_def Let_def dest: pad_not_T split: if_splits)

lemma toISOString_Some:
  "\<exists>rest. toISOString (Some t) = Inr (dateString (Day t) @ CHR ''T'' # rest)"
  by (simp add: toISOString_def dateString_def Let_def fields_of_Day)

lemma split_first_date:
  "toISOString (Some t) = Inr s \<Longrightarrow> split_first CHR ''T'' s = dateString (Day t)"
proof -
  assume a: "toISOString (Some t) = Inr s"
  obtain rest where "toISOString (Some t) = Inr (dateString (Day t) @ CHR ''T'' # rest)"
    using toISOString_Some by blast
  with a have s: "s = dateString (Day t) @ CHR ''T'' # rest" by simp
  show ?thesis
    unfolding s split_first_def
    by (subst takeWhile_append2) (auto dest: dateString_not_T)
qed

lemma formatDateToYYYYMMDD_None: "formatDateToYYYYMMDD tza None = Inl RangeError"
  by (simp add: formatDateToYYYYMMDD_def getFullYear_def getMonth_def getDate_def Date_UTC_def
      new_Date_def toISOString_def)

text \<open>
  The day that \<^verbatim>\<open>formatDateToYYYYMMDD\<close> writes: the local day of the date, unless the local
  year is one of 0 to 99.
\<close>

lemma formatDateToYYYYMMDD_Some:
  assumes "\<not> (0 \<le> YearFromTime (LocalTime tza t) \<and> YearFromTime (LocalTime tza t) \<le> 99)"
    and "\<bar>Day (LocalTime tza t)\<bar> \<le> 100000000"
  shows "formatDateToYYYYMMDD tza (Some t) = Inr (dateString (Day (LocalTime tza t)))"
proof -
  define n where "n = Day (LocalTime tza t)"
  have u: "Date_UTC (getFullYear tza (Some t)) (getMonth tza (Some t)) (getDate tza (Some t))
           = Some (n * msPerDay)"
    using assms TimeClip_days[of n]
    by (auto simp add: Date_UTC_def getFullYear_def getMonth_def getDate_def MakeDay_fields
        MakeDate_def n_def)
  have c: "TimeClip (n * msPerDay) = Some (n * msPerDay)"
    using assms(2) by (simp add: TimeClip_days n_def)
  obtain rest where r: "toISOString (Some (n * msPerDay)) = Inr (dateString n @ CHR ''T'' # rest)"
    using toISOString_Some[of "n * msPerDay"] by (auto simp add: Day_mult)
  show ?thesis
    using split_first_date[OF r]
    by (simp add: formatDateToYYYYMMDD_def u new_Date_def c r Day_mult n_def[symmetric])
qed

lemma YearFromDay_range:
  "a \<le> YearFromDay n \<and> YearFromDay n < b \<longleftrightarrow> DayFromYear a \<le> n \<and> n < DayFromYear b"
proof
  assume h: "a \<le> YearFromDay n \<and> YearFromDay n < b"
  then have "DayFromYear a \<le> DayFromYear (YearFromDay n)"
      "DayFromYear (YearFromDay n + 1) \<le> DayFromYear b"
    by (simp_all add: DayFromYear_mono)
  then show "DayFromYear a \<le> n \<and> n < DayFromYear b"
    using YearFromDay_bounds[of n] by linarith
next
  assume h: "DayFromYear a \<le> n \<and> n < DayFromYear b"
  show "a \<le> YearFromDay n \<and> YearFromDay n < b"
  proof (rule ccontr)
    assume "\<not> (a \<le> YearFromDay n \<and> YearFromDay n < b)"
    then consider "YearFromDay n + 1 \<le> a" | "b \<le> YearFromDay n" by linarith
    then show False
    proof cases
      case 1
      then show False using DayFromYear_mono[OF 1] YearFromDay_bounds(2)[of n] h by linarith
    next
      case 2
      then show False using DayFromYear_mono[OF 2] YearFromDay_bounds(1)[of n] h by linarith
    qed
  qed
qed

lemma DayFromYear_values:
  "DayFromYear 0 = - 719528" "DayFromYear 100 = - 683003" "DayFromYear 10000 = 2932897"
  by (simp_all add: DayFromYear_def)

lemma Date_parse_dateString:
  assumes "0 \<le> YearFromDay n" "YearFromDay n \<le> 9999"
  shows "Date_parse (dateString n) = Some (n * msPerDay)"
proof -
  define t where "t = n * msPerDay"
  define y where "y = YearFromTime t"
  have y: "0 \<le> y" "y \<le> 9999" "y < 10 ^ 4"
    using assms by (simp_all add: y_def t_def YearFromTime_def Day_mult)
  have s: "dateString n = pad 4 y @ CHR ''-'' # pad 2 (MonthFromTime t + 1) @ CHR ''-'' # pad 2 (DateFromTime t)"
    using y by (simp add: dateString_def Let_def t_def[symmetric] y_def[symmetric])
  have ny: "num (pad 4 y) = Some y" using y by (intro num_pad) simp_all
  have nm: "num (pad 2 (MonthFromTime t + 1)) = Some (MonthFromTime t + 1)"
    using MonthFromTime_range[of t] by (intro num_pad) simp_all
  have nd: "num (pad 2 (DateFromTime t)) = Some (DateFromTime t)"
    using DateFromTime_range[of t] by (intro num_pad) simp_all
  have b: "DayFromYear 0 \<le> n" "n < DayFromYear 10000"
    using YearFromDay_range[of 0 n 10000] assms by simp_all
  have c: "TimeClip (n * msPerDay) = Some (n * msPerDay)"
    using b by (intro TimeClip_days) (simp add: DayFromYear_values)
  have md: "MakeDay y (MonthFromTime t) (DateFromTime t) = n"
    using MakeDay_fields[of t] by (simp add: y_def t_def Day_mult)
  have "Date_parse (dateString n)
        = parse_fields (num (pad 4 y)) (num (pad 2 (MonthFromTime t + 1))) (num (pad 2 (DateFromTime t)))"
    unfolding s by (simp add: Date_parse_def length_pad nth_append)
  also have "\<dots> = Some (n * msPerDay)"
    using MonthFromTime_range[of t] DateFromTime_range[of t]
    by (simp add: ny nm nd parse_fields_def md MakeDate_def c)
  finally show ?thesis .
qed

section \<open>The week of the selected date\<close>

lemma DaysBeforeMonth_bounds:
  "0 \<le> l \<Longrightarrow> l \<le> 1 \<Longrightarrow> 0 \<le> DaysBeforeMonth l m \<and> DaysBeforeMonth l m \<le> 335"
  by (simp add: DaysBeforeMonth_def)

lemma MakeDay_bounds:
  assumes "0 \<le> y" "y < 10000" "0 \<le> m" "m \<le> 11" "1 \<le> d" "d \<le> 31"
  shows "- 719528 \<le> MakeDay y m d" "MakeDay y m d \<le> 2933262"
proof -
  have m: "m div 12 = 0" "m mod 12 = m" using assms by simp_all
  have y: "DayFromYear 0 \<le> DayFromYear y" "DayFromYear y \<le> DayFromYear 10000"
    using assms by (simp_all add: DayFromYear_mono)
  have b: "0 \<le> DaysBeforeMonth (if DaysInYear y = 366 then 1 else 0) m
           \<and> DaysBeforeMonth (if DaysInYear y = 366 then 1 else 0) m \<le> 335"
    by (rule DaysBeforeMonth_bounds) simp_all
  show "- 719528 \<le> MakeDay y m d" "MakeDay y m d \<le> 2933262"
    using y b assms by (simp_all add: MakeDay_def Let_def m DayFromYear_values)
qed

text \<open>A date string of ten characters that \<^verbatim>\<open>new Date\<close> accepts is the UTC midnight of a day.\<close>

lemma Date_parse_10:
  assumes "length s = 10" "Date_parse s = Some t0"
  shows "\<exists>n. t0 = n * msPerDay \<and> - 719528 \<le> n \<and> n \<le> 2933262"
proof -
  from assms have p: "parse_fields (num (take 4 s)) (num (take 2 (drop 5 s))) (num (drop 8 s)) = Some t0"
    by (simp add: Date_parse_def split: if_splits)
  then obtain y m d where y: "num (take 4 s) = Some y" and m: "num (take 2 (drop 5 s)) = Some m"
      and d: "num (drop 8 s) = Some d" and r: "1 \<le> m" "m \<le> 12" "1 \<le> d" "d \<le> 31"
      and t: "TimeClip (MakeDate (MakeDay y (m - 1) d) 0) = Some t0"
    by (auto simp add: parse_fields_def split: option.splits if_splits)
  have yb: "0 \<le> y" "y < 10000" using num_bounds[OF y] assms(1) by simp_all
  have b: "- 719528 \<le> MakeDay y (m - 1) d" "MakeDay y (m - 1) d \<le> 2933262"
    using MakeDay_bounds[of y "m - 1" d] yb r by simp_all
  from t have "t0 = MakeDay y (m - 1) d * msPerDay"
    by (simp add: TimeClip_def MakeDate_def split: if_splits)
  with b show ?thesis by blast
qed

lemma getDay_Some: "getDay tza (Some t) = Some (WeekDay (t + tza))"
  by (simp add: getDay_def LocalTime_def)

lemma localDay_Some: "localDay tza (Some t) = Some (Day (t + tza))"
  by (simp add: localDay_def LocalTime_def)

text \<open>
  The week of a selected date, explicitly: with \<open>c\<close> the corrected date and \<open>w\<close> its
  local day of the week, the week starts \<open>(w + 6) mod 7\<close> days before \<open>c\<close>.
\<close>

lemma week_explicit:
  fixes tza :: int
  assumes "length selectedDate = 10" "Date_parse selectedDate = Some t0"
    and c_def: "c = t0 + msPerDay"
    and off_def: "off = (if WeekDay (c + tza) = 0 then 6 else WeekDay (c + tza) - 1)"
    and m_def: "m = c - off * msPerDay"
  shows "correctedDate tza selectedDate = Some c"
    and "startOfWeek tza selectedDate = Some m"
    and "weekDates tza selectedDate
         = [Some m, Some (m + 1 * msPerDay), Some (m + 2 * msPerDay), Some (m + 3 * msPerDay),
            Some (m + 4 * msPerDay), Some (m + 5 * msPerDay), Some (m + 6 * msPerDay)]"
proof -
  obtain n where n: "t0 = n * msPerDay" "- 719528 \<le> n" "n \<le> 2933262"
    using Date_parse_10[OF assms(1,2)] by blast
  have ob: "0 \<le> off" "off \<le> 6"
    using WeekDay_range[of "c + tza"] by (simp_all add: off_def)
  have clip: "\<And>k. - 20 \<le> k \<Longrightarrow> k \<le> 20 \<Longrightarrow> TimeClip (t0 + k * msPerDay) = Some (t0 + k * msPerDay)"
    using n by (simp add: TimeClip_def msPerDay_def)
  show c: "correctedDate tza selectedDate = Some c"
    using clip[of 1] by (simp add: correctedDate_def assms(2) setDate_plus c_def)
  have "TimeClip (c - off * msPerDay) = Some (c - off * msPerDay)"
    using clip[of "1 - off"] ob by (simp add: c_def algebra_simps)
  then show s: "startOfWeek tza selectedDate = Some m"
    by (simp add: startOfWeek_def c getStartOfWeek_def getDay_Some off_def[symmetric]
        setDate_minus new_Date_def m_def)
  have wk: "TimeClip (m + i * msPerDay) = Some (m + i * msPerDay)" if "0 \<le> i" "i \<le> 6" for i
  proof -
    have "m + i * msPerDay = t0 + (1 - off + i) * msPerDay"
      by (simp add: m_def c_def algebra_simps)
    then show ?thesis using clip[of "1 - off + i"] ob that by simp
  qed
  show "weekDates tza selectedDate
         = [Some m, Some (m + 1 * msPerDay), Some (m + 2 * msPerDay), Some (m + 3 * msPerDay),
            Some (m + 4 * msPerDay), Some (m + 5 * msPerDay), Some (m + 6 * msPerDay)]"
    using wk[of 0] wk[of 1] wk[of 2] wk[of 3] wk[of 4] wk[of 5] wk[of 6]
    by (simp add: weekDates_def s generateWeekDates_unroll new_Date_def setDate_plus)
qed

lemma Day_local_shift: "Day (LocalTime tza (m + k * msPerDay)) = Day (LocalTime tza m) + k"
proof -
  have "LocalTime tza (m + k * msPerDay) = LocalTime tza m + k * msPerDay"
    by (simp add: LocalTime_def)
  then show ?thesis by (simp only: Day_shift)
qed

lemma WeekDay_local_shift:
  "WeekDay (LocalTime tza (m + k * msPerDay)) = (WeekDay (LocalTime tza m) + k) mod 7"
proof -
  have "LocalTime tza (m + k * msPerDay) = LocalTime tza m + k * msPerDay"
    by (simp add: LocalTime_def)
  then show ?thesis by (simp only: WeekDay_shift)
qed

lemma seven_cases: "i < 7 \<Longrightarrow> i = 0 \<or> i = 1 \<or> i = 2 \<or> i = 3 \<or> i = 4 \<or> i = 5 \<or> i = (6::nat)"
  by arith

lemma week_nth:
  "i < 7 \<Longrightarrow>
   [Some m, Some (m + 1 * msPerDay), Some (m + 2 * msPerDay), Some (m + 3 * msPerDay),
    Some (m + 4 * msPerDay), Some (m + 5 * msPerDay), Some (m + 6 * msPerDay)] ! i
   = Some (m + int i * msPerDay)"
  by (drule seven_cases) (elim disjE, simp_all)

lemma week_properties:
  fixes tza :: int
  assumes "length selectedDate = 10" "Date_parse selectedDate = Some t0"
  shows "length (weekDates tza selectedDate) = 7"
    and "weekDates tza selectedDate ! 0 = startOfWeek tza selectedDate"
    and "i < 7 \<Longrightarrow> localDay tza (weekDates tza selectedDate ! i)
           = num_plus (localDay tza (startOfWeek tza selectedDate)) (Some (int i))"
    and "i < 7 \<Longrightarrow> weekDates tza selectedDate ! i \<noteq> None"
    and "getDay tza (weekDates tza selectedDate ! 0) = Some 1"
    and "getDay tza (weekDates tza selectedDate ! 6) = Some 0"
    and "correctedDate tza selectedDate = Some (t0 + msPerDay)"
    and "localDay tza (correctedDate tza selectedDate)
           \<in> set (map (localDay tza) (weekDates tza selectedDate))"
proof -
  define c where "c = t0 + msPerDay"
  define w where "w = WeekDay (LocalTime tza c)"
  define off where "off = (if w = 0 then 6 else w - 1)"
  define m where "m = c - off * msPerDay"
  have o: "off = (if WeekDay (c + tza) = 0 then 6 else WeekDay (c + tza) - 1)"
    by (simp add: off_def w_def LocalTime_def)
  note e = week_explicit[OF assms c_def o m_def]
  have wr: "0 \<le> w" "w < 7" using WeekDay_range[of "LocalTime tza c"] by (simp_all add: w_def)
  have ob: "0 \<le> off" "off \<le> 6" using wr by (simp_all add: off_def)
  have cm: "c = m + off * msPerDay" by (simp add: m_def)
  have wm: "WeekDay (LocalTime tza m) = 1"
  proof -
    have "m = c + (- off) * msPerDay" by (simp add: m_def)
    then have "WeekDay (LocalTime tza m) = (w + (- off)) mod 7"
      by (simp only: WeekDay_local_shift w_def)
    then show ?thesis using wr by (simp add: off_def)
  qed
  show "length (weekDates tza selectedDate) = 7" by (simp add: e(3))
  show "weekDates tza selectedDate ! 0 = startOfWeek tza selectedDate" by (simp add: e(2,3))
  show "localDay tza (weekDates tza selectedDate ! i)
           = num_plus (localDay tza (startOfWeek tza selectedDate)) (Some (int i))" if "i < 7"
    using week_nth[OF that, of m]
    by (simp only: e(2,3) localDay_def option.map Day_local_shift num_plus_def option.case)
  show "weekDates tza selectedDate ! i \<noteq> None" if "i < 7"
    using week_nth[OF that, of m] by (simp only: e(3)) simp
  show "getDay tza (weekDates tza selectedDate ! 0) = Some 1"
    by (simp add: e(3) getDay_def wm)
  have "WeekDay (LocalTime tza (m + 6 * msPerDay)) = (1 + 6) mod 7"
    by (simp only: WeekDay_local_shift wm)
  then show "getDay tza (weekDates tza selectedDate ! 6) = Some 0"
    by (simp add: e(3) getDay_def)
  show "correctedDate tza selectedDate = Some (t0 + msPerDay)"
    by (simp add: e(1) c_def)
  have "off = 0 \<or> off = 1 \<or> off = 2 \<or> off = 3 \<or> off = 4 \<or> off = 5 \<or> off = 6"
    using ob by arith
  then have "Some (m + off * msPerDay) \<in> set (weekDates tza selectedDate)"
    by (elim disjE) (simp_all add: e(3))
  then show "localDay tza (correctedDate tza selectedDate)
           \<in> set (map (localDay tza) (weekDates tza selectedDate))"
    by (simp only: e(1) cm[symmetric] set_map) (rule imageI)
qed

lemma Date_parse_example: "Date_parse ''2024-06-12'' = Some (19886 * msPerDay)"
  by (simp add: Date_parse_def parse_fields_def num_def num_step_def digit_val_def
      MakeDay_def MakeDate_def DayFromYear_def DaysInYear_def DaysBeforeMonth_def TimeClip_def
      msPerDay_def Let_def)

lemma YearFromDay_example: "19884 \<le> n \<Longrightarrow> n \<le> 19890 \<Longrightarrow> YearFromDay n = 2024"
  by (simp add: YearFromDay_charact DayFromYear_def)

lemma dateString_example:
  "dateString 19884 = ''2024-06-10''" "dateString 19885 = ''2024-06-11''"
  "dateString 19886 = ''2024-06-12''" "dateString 19887 = ''2024-06-13''"
  "dateString 19888 = ''2024-06-14''" "dateString 19889 = ''2024-06-15''"
  "dateString 19890 = ''2024-06-16''"
  by code_simp+

lemma format_local_day:
  assumes "Day (LocalTime tza t) = n" "19884 \<le> n" "n \<le> 19890"
  shows "formatDateToYYYYMMDD tza (Some t) = Inr (dateString n)"
proof -
  have "YearFromTime (LocalTime tza t) = 2024"
    using assms by (simp add: YearFromTime_def YearFromDay_example)
  then show ?thesis
    using assms formatDateToYYYYMMDD_Some[of tza t] by simp
qed

lemma week_example:
  assumes "\<bar>tza\<bar> < msPerDay"
  shows "map (formatDateToYYYYMMDD tza) (weekDates tza ''2024-06-12'')
         = [Inr ''2024-06-10'', Inr ''2024-06-11'', Inr ''2024-06-12'', Inr ''2024-06-13'',
            Inr ''2024-06-14'', Inr ''2024-06-15'', Inr ''2024-06-16'']"
proof -
  define c where "c = 19886 * msPerDay + msPerDay"
  define off where "off = (if WeekDay (c + tza) = 0 then 6 else WeekDay (c + tza) - 1)"
  define m where "m = c - off * msPerDay"
  have l: "length ''2024-06-12'' = 10" by simp
  note e = week_explicit(3)[OF l Date_parse_example c_def off_def m_def]
  have c: "c = 19887 * msPerDay" by (simp add: c_def)
  have d: "Day (c + tza) = (if tza < 0 then 19886 else 19887)"
    unfolding c using Day_offset[OF assms, of 19887] by simp
  have o: "off = (if tza < 0 then 2 else 3)"
    by (simp add: off_def WeekDay_def d)
  have m: "m = (if tza < 0 then 19885 else 19884) * msPerDay"
    by (simp add: m_def c o)
  have ld: "Day (LocalTime tza (m + k * msPerDay)) = 19884 + k" for k
  proof -
    have "m + k * msPerDay = ((if tza < 0 then 19885 else 19884) + k) * msPerDay"
      by (simp add: m algebra_simps)
    then show ?thesis
      using Day_offset[OF assms, of "(if tza < 0 then 19885 else 19884) + k"]
      by (simp add: LocalTime_def)
  qed
  have f: "formatDateToYYYYMMDD tza (Some (m + k * msPerDay)) = Inr (dateString (19884 + k))"
    if "0 \<le> k" "k \<le> 6" for k
    using format_local_day[OF ld[of k]] that by simp
  show ?thesis
    using f[of 0] f[of 1] f[of 2] f[of 3] f[of 4] f[of 5] f[of 6]
    by (simp add: e dateString_example)
qed

text \<open>
  What holds of the week window at every offset. For every reference date (a date string
  of the form \<^verbatim>\<open>YYYY-MM-DD\<close> that \<^verbatim>\<open>new Date\<close> accepts) the window holds seven valid dates;
  their local calendar days are consecutive; the first is a Monday (\<^verbatim>\<open>getDay\<close> 1) and the
  last the following Sunday (\<^verbatim>\<open>getDay\<close> 0). The corrected date is the instant 24 hours after
  the UTC midnight of the reference date, and the local day of that instant is one of the
  seven: that is the day after the reference date only at or east of UTC (see
  \<open>week_formatted\<close> below). For the reference date 2024-06-12 the window is written
  2024-06-10, \<dots>, 2024-06-16 at every offset.
\<close>

lemma week_window:
  fixes tza :: int
  assumes "\<bar>tza\<bar> < msPerDay"
    and "length selectedDate = 10"
    and "Date_parse selectedDate = Some t0"
  shows "(let week = weekDates tza selectedDate in
            length week = 7
          \<and> week ! 0 = startOfWeek tza selectedDate
          \<and> (\<forall>i<7. week ! i \<noteq> None)
          \<and> (\<forall>i<7. localDay tza (week ! i)
                      = num_plus (localDay tza (startOfWeek tza selectedDate)) (Some (int i)))
          \<and> getDay tza (week ! 0) = Some 1
          \<and> getDay tza (week ! 6) = Some 0
          \<and> correctedDate tza selectedDate = Some (t0 + msPerDay)
          \<and> localDay tza (correctedDate tza selectedDate) \<in> set (map (localDay tza) week))
       \<and> map (formatDateToYYYYMMDD tza) (weekDates tza ''2024-06-12'')
         = [Inr ''2024-06-10'', Inr ''2024-06-11'', Inr ''2024-06-12'', Inr ''2024-06-13'',
            Inr ''2024-06-14'', Inr ''2024-06-15'', Inr ''2024-06-16'']"
  unfolding Let_def
  using week_properties[OF assms(2,3), where tza = tza] week_example[OF assms(1)]
  by (intro conjI allI impI) assumption+

lemma week_window_at_example:
  "length (weekDates (- 18000000) ''2024-06-12'') = 7
   \<and> getDay (- 18000000) (weekDates (- 18000000) ''2024-06-12'' ! 0) = Some 1
   \<and> getDay (- 18000000) (weekDates (- 18000000) ''2024-06-12'' ! 6) = Some 0
   \<and> localDay (- 18000000) (weekDates (- 18000000) ''2024-06-12'' ! 3)
       = num_plus (localDay (- 18000000) (startOfWeek (- 18000000) ''2024-06-12'')) (Some 3)
   \<and> correctedDate (- 18000000) ''2024-06-12'' = Some 1718236800000
   \<and> map (formatDateToYYYYMMDD (- 18000000)) (weekDates (- 18000000) ''2024-06-12'')
       = [Inr ''2024-06-10'', Inr ''2024-06-11'', Inr ''2024-06-12'', Inr ''2024-06-13'',
          Inr ''2024-06-14'', Inr ''2024-06-15'', Inr ''2024-06-16'']"
proof -
  have h1: "\<bar>- 18000000\<bar> < msPerDay" by (simp add: msPerDay_def)
  have h2: "length ''2024-06-12'' = 10" by simp
  have h3: "Date_parse ''2024-06-12'' = Some 1718150400000"
    by (simp add: Date_parse_example msPerDay_def)
  note w = week_window[OF h1 h2 h3, unfolded Let_def]
  have l: "\<forall>i<7. localDay (- 18000000) (weekDates (- 18000000) ''2024-06-12'' ! i)
             = num_plus (localDay (- 18000000) (startOfWeek (- 18000000) ''2024-06-12''))
                 (Some (int i))"
    using w by (elim conjE)
  have "localDay (- 18000000) (weekDates (- 18000000) ''2024-06-12'' ! 3)
       = num_plus (localDay (- 18000000) (startOfWeek (- 18000000) ''2024-06-12'')) (Some 3)"
    using l[rule_format, of 3] by simp
  moreover have "correctedDate (- 18000000) ''2024-06-12'' = Some 1718236800000"
    using w by (elim conjE) (simp add: msPerDay_def)
  ultimately show ?thesis
    using w by (elim conjE, intro conjI) assumption+
qed

section \<open>Formatting and reading a date\<close>

lemma fields_at:
  assumes "Day t = n" "DayFromYear y \<le> n" "n < DayFromYear (y + 1)"
  shows "YearFromTime t = y"
    and "DayWithinYear t = n - DayFromYear y"
    and "InLeapYear t = (if DaysInYear y = 366 then 1 else 0)"
proof -
  show y: "YearFromTime t = y"
    using assms by (simp add: YearFromTime_def YearFromDay_charact)
  show "DayWithinYear t = n - DayFromYear y"
    by (simp add: DayWithinYear_def y assms(1))
  show "InLeapYear t = (if DaysInYear y = 366 then 1 else 0)"
    by (simp add: InLeapYear_def y)
qed

lemma format_fields_only:
  assumes "getFullYear tza' d' = getFullYear tza d"
    and "getMonth tza' d' = getMonth tza d"
    and "getDate tza' d' = getDate tza d"
  shows "formatDateToYYYYMMDD tza' d' = formatDateToYYYYMMDD tza d"
  by (simp add: formatDateToYYYYMMDD_def assms)

lemma format_four_digit_year:
  assumes "100 \<le> YearFromDay n" "YearFromDay n \<le> 9999" "Day (LocalTime tza t) = n"
  shows "formatDateToYYYYMMDD tza (Some t) = Inr (dateString n)"
    and "Date_parse (dateString n) = Some (n * msPerDay)"
proof -
  have b: "DayFromYear 100 \<le> n" "n < DayFromYear 10000"
    using YearFromDay_range[of 100 n 10000] assms(1,2) by simp_all
  have "\<bar>Day (LocalTime tza t)\<bar> \<le> 100000000"
    using b assms(3) by (simp add: DayFromYear_values)
  moreover have "\<not> (0 \<le> YearFromTime (LocalTime tza t) \<and> YearFromTime (LocalTime tza t) \<le> 99)"
    using assms by (simp add: YearFromTime_def)
  ultimately show "formatDateToYYYYMMDD tza (Some t) = Inr (dateString n)"
    using formatDateToYYYYMMDD_Some[of tza t] assms(3) by simp
  show "Date_parse (dateString n) = Some (n * msPerDay)"
    using assms(1,2) by (intro Date_parse_dateString) simp_all
qed

text \<open>
  Read in UTC, the round trip keeps the day. For every date whose local year is between
  100 and 9999 and every offset: formatting the date and reading the string again gives
  the UTC midnight of the date's local calendar day, so the UTC year, month and day of the
  result are the local year, month and day of the date; and the formatted string depends
  on the date and the offset through that year, month and day only.
\<close>

lemma format_then_parse_same_day:
  assumes "getFullYear tza (Some t) = Some y"
    and "100 \<le> y"
    and "y \<le> 9999"
  shows "format_then_parse tza (Some t) = Some (Day (LocalTime tza t) * msPerDay)
       \<and> getFullYear 0 (format_then_parse tza (Some t)) = getFullYear tza (Some t)
       \<and> getMonth 0 (format_then_parse tza (Some t)) = getMonth tza (Some t)
       \<and> getDate 0 (format_then_parse tza (Some t)) = getDate tza (Some t)
       \<and> (\<forall>tza' d'. getFullYear tza' d' = getFullYear tza (Some t)
                    \<and> getMonth tza' d' = getMonth tza (Some t)
                    \<and> getDate tza' d' = getDate tza (Some t)
            \<longrightarrow> formatDateToYYYYMMDD tza' d' = formatDateToYYYYMMDD tza (Some t))"
proof -
  define n where "n = Day (LocalTime tza t)"
  have y: "YearFromDay n = y"
    using assms(1) by (simp add: getFullYear_def YearFromTime_def n_def)
  note f = format_four_digit_year[of n tza t, unfolded y, OF assms(2,3) n_def[symmetric]]
  have r: "format_then_parse tza (Some t) = Some (n * msPerDay)"
    by (simp add: format_then_parse_def f)
  have l: "LocalTime 0 (n * msPerDay) = Day (LocalTime tza t) * msPerDay"
    by (simp add: LocalTime_def n_def)
  have a: "getFullYear 0 (Some (n * msPerDay)) = getFullYear tza (Some t)"
    "getMonth 0 (Some (n * msPerDay)) = getMonth tza (Some t)"
    "getDate 0 (Some (n * msPerDay)) = getDate tza (Some t)"
    by (simp_all add: n_def getFullYear_def getMonth_def getDate_def LocalTime_def fields_of_Day)
  have b: "\<forall>tza' d'. getFullYear tza' d' = getFullYear tza (Some t)
                    \<and> getMonth tza' d' = getMonth tza (Some t)
                    \<and> getDate tza' d' = getDate tza (Some t)
            \<longrightarrow> formatDateToYYYYMMDD tza' d' = formatDateToYYYYMMDD tza (Some t)"
    by (intro allI impI, elim conjE) (rule format_fields_only)
  have c: "Some (n * msPerDay) = Some (Day (LocalTime tza t) * msPerDay)" by (simp add: n_def)
  show ?thesis
    unfolding r by (intro conjI) (rule c a b)+
qed

lemma format_then_parse_same_day_at_example:
  "format_then_parse (- 18000000) (Some 1718150400000) = Some 1718064000000
   \<and> getFullYear 0 (format_then_parse (- 18000000) (Some 1718150400000)) = Some 2024"
proof -
  have D: "Day (LocalTime (- 18000000) 1718150400000) = 19885"
    by (simp add: Day_def LocalTime_def msPerDay_def)
  have h1: "getFullYear (- 18000000) (Some 1718150400000) = Some 2024"
    using fields_at(1)[OF D, of 2024] by (simp add: getFullYear_def DayFromYear_def)
  have h2: "(100::int) \<le> 2024" "(2024::int) \<le> 9999" by simp_all
  have n: "Day (LocalTime (- 18000000) 1718150400000) * msPerDay = 1718064000000"
    by (simp add: D msPerDay_def)
  show ?thesis
    using format_then_parse_same_day[OF h1 h2] unfolding h1 n
    by (elim conjE, intro conjI) assumption+
qed

text \<open>
  The round trip also fails for a date of the first century, in every zone: \<^verbatim>\<open>Date.UTC\<close>
  reads a year from 0 to 99 as 1900 plus that year. The date 0050-06-12 (in UTC) is
  written as 1950-06-12 and read again as a day of the year 1950.
\<close>

lemma format_then_parse_year_50:
  "Date_parse ''0050-06-12'' = Some (- 60575299200000)
   \<and> getFullYear 0 (Some (- 60575299200000)) = Some 50
   \<and> formatDateToYYYYMMDD 0 (Some (- 60575299200000)) = Inr ''1950-06-12''
   \<and> getFullYear 0 (format_then_parse 0 (Some (- 60575299200000))) = Some 1950"
proof -
  have p: "Date_parse ''0050-06-12'' = Some (- 60575299200000)" by code_simp
  have D: "Day (LocalTime 0 (- 60575299200000)) = - 701103"
    by (simp add: Day_def LocalTime_def msPerDay_def)
  note F = fields_at[OF D, of 50, simplified DayFromYear_def DaysInYear_def, simplified]
  have y: "getFullYear 0 (Some (- 60575299200000)) = Some 50"
    by (simp add: getFullYear_def F)
  have M: "MonthFromTime (LocalTime 0 (- 60575299200000)) = 5"
    by (simp add: MonthFromTime_def F)
  have m: "getMonth 0 (Some (- 60575299200000)) = Some 5"
    by (simp add: getMonth_def M)
  have d: "getDate 0 (Some (- 60575299200000)) = Some 12"
    by (simp add: getDate_def DateFromTime_def M F DaysBeforeMonth_def)
  have u: "new_Date (Date_UTC (Some 50) (Some 5) (Some 12)) = Some (- 617155200000)"
    by code_simp
  have i: "toISOString (Some (- 617155200000)) = Inr ''1950-06-12T00:00:00.000Z''"
    by code_simp
  have s: "split_first CHR ''T'' ''1950-06-12T00:00:00.000Z'' = ''1950-06-12''"
    by code_simp
  have f: "formatDateToYYYYMMDD 0 (Some (- 60575299200000)) = Inr ''1950-06-12''"
    by (simp add: formatDateToYYYYMMDD_def y m d u i s)
  have q: "Date_parse ''1950-06-12'' = Some (- 617155200000)" by code_simp
  have D': "Day (LocalTime 0 (- 617155200000)) = - 7143"
    by (simp add: Day_def LocalTime_def msPerDay_def)
  have g: "getFullYear 0 (Some (- 617155200000)) = Some 1950"
    using fields_at(1)[OF D', of 1950] by (simp add: getFullYear_def DayFromYear_def)
  show ?thesis
    by (simp add: p y f format_then_parse_def q g)
qed

text \<open>
  Read in the caller's zone, as the component reads every date string, the date that
  \<^verbatim>\<open>formatDateToYYYYMMDD\<close> wrote is the same local day at or east of UTC and the day before
  west of UTC.
\<close>

lemma format_then_parse_local_day:
  fixes tza :: int
  assumes "\<bar>tza\<bar> < msPerDay"
    and "getFullYear tza (Some t) = Some y"
    and "100 \<le> y"
    and "y \<le> 9999"
  shows "localDay tza (format_then_parse tza (Some t))
         = Some (if tza < 0 then Day (LocalTime tza t) - 1 else Day (LocalTime tza t))"
proof -
  have "format_then_parse tza (Some t) = Some (Day (LocalTime tza t) * msPerDay)"
    using format_then_parse_same_day[OF assms(2,3,4)] by (elim conjE)
  then show ?thesis
    using Day_offset[OF assms(1), of "Day (LocalTime tza t)"]
    by (simp add: localDay_def LocalTime_def)
qed

text \<open>
  Claim C2 at a failing input: five hours west of UTC (offset \<open>-18000000\<close> ms), the date
  with the time value 1718150400000 (what \<^verbatim>\<open>new Date\<close> reads from 2024-06-12) has the local
  day 2024-06-11 (day 19885) and is written as 2024-06-11; the date read from that string
  has the local day 2024-06-10 (day 19884).
\<close>

theorem format_then_parse_west:
  "localDay (- 18000000) (Some 1718150400000) = Some 19885
   \<and> formatDateToYYYYMMDD (- 18000000) (Some 1718150400000) = Inr ''2024-06-11''
   \<and> localDay (- 18000000) (format_then_parse (- 18000000) (Some 1718150400000)) = Some 19884"
proof -
  have D: "Day (LocalTime (- 18000000) 1718150400000) = 19885"
    by (simp add: Day_def LocalTime_def msPerDay_def)
  have y: "getFullYear (- 18000000) (Some 1718150400000) = Some 2024"
    using fields_at(1)[OF D, of 2024] by (simp add: getFullYear_def DayFromYear_def)
  have t: "\<bar>- 18000000\<bar> < msPerDay" by (simp add: msPerDay_def)
  have f: "formatDateToYYYYMMDD (- 18000000) (Some 1718150400000) = Inr ''2024-06-11''"
    using format_local_day[OF D] by (simp add: dateString_example)
  have h: "(100::int) \<le> 2024" "(2024::int) \<le> 9999" by simp_all
  show ?thesis
    using format_then_parse_local_day[OF t y h]
    by (simp add: f localDay_def D)
qed

section \<open>The week window as calendar dates\<close>



section \<open>Moving the selected date by a week\<close>

text \<open>
  \<^verbatim>\<open>navigateWeek\<close> on the date string of day \<open>n\<close>: the string is read as UTC midnight,
  moved by seven days, and written as a local day. West of UTC (a negative offset) the
  local day of a UTC midnight is the day before, so the result is one day short.
\<close>

lemma navigateWeek_dateString:
  assumes "\<bar>tza\<bar> < msPerDay"
    and "DayFromYear 100 + 8 \<le> n"
    and "n + 8 < DayFromYear 10000"
  shows "navigateWeek tza (dateString n) direction
         = Inr (dateString (n + (if direction = ''next'' then 7 else - 7)
                              + (if tza < 0 then - 1 else 0)))"
proof -
  define k :: int where "k = (if direction = ''next'' then 7 else - 7)"
  define n' where "n' = n + k + (if tza < 0 then - 1 else 0)"
  have k: "k = 7 \<or> k = - 7" by (simp add: k_def)
  have y: "100 \<le> YearFromDay n" "YearFromDay n \<le> 9999"
    using YearFromDay_range[of 100 n 10000] assms(2,3) by simp_all
  have p: "Date_parse (dateString n) = Some (n * msPerDay)"
    using y by (intro Date_parse_dateString) simp_all
  have "\<bar>n + k\<bar> \<le> 100000000"
    using assms(2,3) k by (auto simp add: DayFromYear_values)
  then have c: "TimeClip (n * msPerDay + k * msPerDay) = Some ((n + k) * msPerDay)"
    using TimeClip_days[of "n + k"] by (simp add: algebra_simps)
  have d: "Day (LocalTime tza ((n + k) * msPerDay)) = n'"
    using Day_offset[OF assms(1), of "n + k"] by (simp add: LocalTime_def n'_def)
  have y': "100 \<le> YearFromDay n'" "YearFromDay n' \<le> 9999"
    using YearFromDay_range[of 100 n' 10000] assms(2,3) k by (auto simp add: n'_def)
  have "navigateWeek tza (dateString n) direction
        = formatDateToYYYYMMDD tza (Some ((n + k) * msPerDay))"
    by (simp add: navigateWeek_def p setDate_plus k_def[symmetric] c Let_def)
  also have "\<dots> = Inr (dateString n')"
    by (rule format_four_digit_year(1)[OF y' d])
  finally show ?thesis by (simp add: n'_def k_def)
qed

lemma navigateWeek_next_previous:
  assumes "\<bar>tza\<bar> < msPerDay"
    and "DayFromYear 100 + 8 \<le> n"
    and "n + 16 < DayFromYear 10000"
  shows "navigateWeek tza (dateString n) ''next''
         = Inr (dateString (if tza < 0 then n + 6 else n + 7))"
    and "navigateWeek tza (dateString (if tza < 0 then n + 6 else n + 7)) ''previous''
         = Inr (dateString (if tza < 0 then n - 2 else n))"
proof -
  show "navigateWeek tza (dateString n) ''next''
         = Inr (dateString (if tza < 0 then n + 6 else n + 7))"
    using navigateWeek_dateString[OF assms(1), of n "''next''"] assms(2,3)
    by (simp add: add.commute)
  show "navigateWeek tza (dateString (if tza < 0 then n + 6 else n + 7)) ''previous''
         = Inr (dateString (if tza < 0 then n - 2 else n))"
    using navigateWeek_dateString[OF assms(1), of "if tza < 0 then n + 6 else n + 7" "''previous''"]
      assms(2,3)
    by (simp split: if_splits)
qed

lemma dateString_inject:
  assumes "0 \<le> YearFromDay a" "YearFromDay a \<le> 9999" "0 \<le> YearFromDay b" "YearFromDay b \<le> 9999"
    and "dateString a = dateString b"
  shows "a = b"
proof -
  have "Some (a * msPerDay) = Some (b * msPerDay)"
    using Date_parse_dateString[OF assms(1,2)] Date_parse_dateString[OF assms(3,4)] assms(5)
    by (simp only:)
  then show ?thesis by (simp add: msPerDay_def)
qed

text \<open>
  Claim C3 at a failing input: five hours west of UTC (offset \<open>-18000000\<close> ms), with the
  reference date 2024-06-12, \<^verbatim>\<open>navigateWeek('next')\<close> sets 2024-06-18 and
  \<^verbatim>\<open>navigateWeek('previous')\<close> then sets 2024-06-10, not 2024-06-12.
\<close>

theorem navigateWeek_next_previous_west:
  "navigateWeek (- 18000000) ''2024-06-12'' ''next'' = Inr ''2024-06-18''
   \<and> navigateWeek (- 18000000) ''2024-06-18'' ''previous'' = Inr ''2024-06-10''"
proof -
  have t: "\<bar>- 18000000\<bar> < msPerDay" by (simp add: msPerDay_def)
  have b: "DayFromYear 100 + 8 \<le> 19886" "19886 + 16 < DayFromYear 10000"
    by (simp_all add: DayFromYear_values)
  have s: "dateString 19892 = ''2024-06-18''" by code_simp
  show ?thesis
    using navigateWeek_next_previous[OF t b]
    by (simp add: dateString_example s)
qed

section \<open>Fetching the tasks of a week\<close>

lemma formattedDates_subset:
  "date \<in> set dates \<Longrightarrow> formatDateToYYYYMMDD tza date = Inr s \<Longrightarrow> s \<in> set (formattedDates tza dates)"
  by (induction dates) (auto split: sum.splits)

lemma formattedDates_map:
  "map (formatDateToYYYYMMDD tza) dates = map Inr ss \<Longrightarrow> formattedDates tza dates = ss"
  by (induction dates arbitrary: ss) auto

lemma loop_thrown:
  "\<forall>date\<in>set dates. \<exists>s. formatDateToYYYYMMDD tza date = Inr s \<Longrightarrow>
   fst (fetchTasksForWeek_loop tza api dates acc) = None"
  by (induction dates arbitrary: acc) (auto split: promise.splits)

lemma loop_requests:
  "\<forall>date\<in>set dates. \<exists>s. formatDateToYYYYMMDD tza date = Inr s \<Longrightarrow>
   requests (snd (fetchTasksForWeek_loop tza api dates acc))
   = requests acc @ map Call_getTasksByDate (formattedDates tza dates)"
  by (induction dates arbitrary: acc) (auto split: promise.splits)

lemma loop_tasks:
  "\<forall>date\<in>set dates. \<exists>s. formatDateToYYYYMMDD tza date = Inr s \<Longrightarrow>
   tasksByDateTemp (snd (fetchTasksForWeek_loop tza api dates acc)) k
   = (if k \<in> set (formattedDates tza dates)
      then (case getTasksByDate api k of
              Fulfilled tasks \<Rightarrow> Some tasks
            | Rejected e \<Rightarrow> tasksByDateTemp acc k)
      else tasksByDateTemp acc k)"
  by (induction dates arbitrary: acc) (auto split: promise.splits)

lemma fetchTasksForWeek_result:
  assumes "\<forall>date\<in>set dates. \<exists>s. formatDateToYYYYMMDD tza date = Inr s"
  shows "calls (fetchTasksForWeek tza api st dates)
           = map Call_getTasksByDate (formattedDates tza dates)
       \<and> length (calls (fetchTasksForWeek tza api st dates)) = length dates
       \<and> thrown (fetchTasksForWeek tza api st dates) = None
       \<and> (case after (fetchTasksForWeek tza api st dates) of
             Inl e \<Rightarrow> False
           | Inr st' \<Rightarrow>
               newTask st' = newTask st
               \<and> (\<forall>k. tasksByDate st' k
                        = (if k \<in> set (formattedDates tza dates)
                           then (case getTasksByDate api k of
                                   Fulfilled tasks \<Rightarrow> Some tasks
                                 | Rejected e \<Rightarrow> None)
                           else None)))"
proof -
  define acc0 where "acc0 = \<lparr>tasksByDateTemp = Map.empty, requests = [], errors = []\<rparr>"
  obtain e acc where r: "fetchTasksForWeek_loop tza api dates acc0 = (e, acc)"
    by (cases "fetchTasksForWeek_loop tza api dates acc0")
  have e: "e = None" using loop_thrown[OF assms, of api acc0] r by simp
  have q: "requests acc = map Call_getTasksByDate (formattedDates tza dates)"
    using loop_requests[OF assms, of api acc0] r by (simp add: acc0_def)
  have t: "tasksByDateTemp acc k
           = (if k \<in> set (formattedDates tza dates)
              then (case getTasksByDate api k of Fulfilled tasks \<Rightarrow> Some tasks | Rejected e \<Rightarrow> None)
              else None)" for k
    using loop_tasks[OF assms, of api acc0 k] r
    by (simp add: acc0_def split: promise.splits)
  have l: "length (formattedDates tza dates) = length dates"
    using assms by (induction dates) auto
  show ?thesis
    by (simp add: fetchTasksForWeek_def acc0_def[symmetric] r e q t l)
qed

text \<open>
  Claim C8. For every list of dates that can be formatted (a week window is one) and every
  outcome of the requests: \<^verbatim>\<open>fetchTasksForWeek\<close> sends exactly one request per date, in
  order, throws nothing, and replaces the tasks of the state in one update: the key of a
  date whose request was fulfilled is mapped to the returned list, the key of a date whose
  request was rejected has no entry, and no other key has an entry, whatever the state
  held before.
\<close>

theorem fetchTasksForWeek_replaces:
  assumes "\<forall>date\<in>set dates. \<exists>s. formatDateToYYYYMMDD tza date = Inr s"
  shows "calls (fetchTasksForWeek tza api st dates)
           = map Call_getTasksByDate (formattedDates tza dates)
       \<and> length (calls (fetchTasksForWeek tza api st dates)) = length dates
       \<and> thrown (fetchTasksForWeek tza api st dates) = None
       \<and> (case after (fetchTasksForWeek tza api st dates) of
             Inl e \<Rightarrow> False
           | Inr st' \<Rightarrow>
               newTask st' = newTask st
               \<and> (\<forall>k. tasksByDate st' k
                        = (if k \<in> set (formattedDates tza dates)
                           then (case getTasksByDate api k of
                                   Fulfilled tasks \<Rightarrow> Some tasks
                                 | Rejected e \<Rightarrow> None)
                           else None)))"
  using assms by (rule fetchTasksForWeek_result)

lemma formatDateToYYYYMMDD_defined:
  assumes "\<bar>Day (LocalTime tza t)\<bar> \<le> 3000000"
  shows "\<exists>s. formatDateToYYYYMMDD tza (Some t) = Inr s"
proof (cases "0 \<le> YearFromTime (LocalTime tza t) \<and> YearFromTime (LocalTime tza t) \<le> 99")
  case False
  then show ?thesis using formatDateToYYYYMMDD_Some[of tza t] assms by simp
next
  case True
  define u where "u = MakeDay (1900 + YearFromTime (LocalTime tza t))
                        (MonthFromTime (LocalTime tza t)) (DateFromTime (LocalTime tza t))"
  have b: "- 719528 \<le> u" "u \<le> 2933262"
    unfolding u_def
    using True MonthFromTime_range[of "LocalTime tza t"] DateFromTime_range[of "LocalTime tza t"]
    by (intro MakeDay_bounds; simp)+
  have c: "TimeClip (u * msPerDay) = Some (u * msPerDay)"
    using b by (intro TimeClip_days) simp
  have d: "Date_UTC (getFullYear tza (Some t)) (getMonth tza (Some t)) (getDate tza (Some t))
           = Some (u * msPerDay)"
    using True by (simp add: Date_UTC_def getFullYear_def getMonth_def getDate_def MakeDate_def
        u_def[symmetric] c)
  obtain rest where r: "toISOString (Some (u * msPerDay)) = Inr (dateString u @ CHR ''T'' # rest)"
    using toISOString_Some[of "u * msPerDay"] by (auto simp add: Day_mult)
  show ?thesis
    by (simp add: formatDateToYYYYMMDD_def d new_Date_def c r)
qed

lemma week_formats:
  fixes tza :: int
  assumes "\<bar>tza\<bar> < msPerDay" "length selectedDate = 10" "Date_parse selectedDate = Some t0"
  shows "\<forall>date\<in>set (weekDates tza selectedDate). \<exists>s. formatDateToYYYYMMDD tza date = Inr s"
proof -
  obtain n where n: "t0 = n * msPerDay" "- 719528 \<le> n" "n \<le> 2933262"
    using Date_parse_10[OF assms(2,3)] by blast
  define c where "c = t0 + msPerDay"
  define off where "off = (if WeekDay (c + tza) = 0 then 6 else WeekDay (c + tza) - 1)"
  define m where "m = c - off * msPerDay"
  note e = week_explicit(3)[OF assms(2,3) c_def off_def m_def]
  have ob: "0 \<le> off" "off \<le> 6"
    using WeekDay_range[of "c + tza"] by (simp_all add: off_def)
  have f: "\<exists>s. formatDateToYYYYMMDD tza (Some (m + i * msPerDay)) = Inr s" if "0 \<le> i" "i \<le> 6" for i
  proof -
    have "m + i * msPerDay = (n + 1 - off + i) * msPerDay"
      by (simp add: m_def c_def n(1) algebra_simps)
    then have "Day (LocalTime tza (m + i * msPerDay))
               = (if tza < 0 then n + 1 - off + i - 1 else n + 1 - off + i)"
      using Day_offset[OF assms(1), of "n + 1 - off + i"] by (simp add: LocalTime_def)
    then have "\<bar>Day (LocalTime tza (m + i * msPerDay))\<bar> \<le> 3000000"
      using n(2,3) ob that by (simp split: if_splits)
    then show ?thesis by (rule formatDateToYYYYMMDD_defined)
  qed
  show ?thesis
    using f[of 0] f[of 1] f[of 2] f[of 3] f[of 4] f[of 5] f[of 6] by (simp add: e)
qed

lemma dom_after_update:
  "tasksByDate st d = Some tasks \<Longrightarrow> dom ((tasksByDate st)(d \<mapsto> tasks')) = dom (tasksByDate st)"
  by auto

lemma add_keeps_keys:
  assumes "keys_are_week tza selectedDate st" "date \<in> set (weekDates tza selectedDate)"
  shows "case after (handleAddTask tza api st date) of
           Inl e \<Rightarrow> False | Inr st' \<Rightarrow> keys_are_week tza selectedDate st'"
proof (cases "formatDateToYYYYMMDD tza date")
  case (Inl e)
  then show ?thesis using assms(1) by (simp add: handleAddTask_def)
next
  case (Inr d)
  then have "d \<in> set (formattedDates tza (weekDates tza selectedDate))"
    using assms(2) by (intro formattedDates_subset)
  then have "insert d (dom (tasksByDate st)) = dom (tasksByDate st)"
    using assms(1) by (auto simp add: keys_are_week_def)
  then show ?thesis
    using assms(1) Inr
    by (auto simp add: handleAddTask_def keys_are_week_def Let_def split: promise.splits)
qed

lemma toggle_delete_keep_keys:
  assumes "keys_are_week tza selectedDate st"
    and "taskDate \<in> set (formattedDates tza (weekDates tza selectedDate))"
  shows "case after (handleToggleCompletion api st taskId taskDate) of
           Inl e \<Rightarrow> False | Inr st' \<Rightarrow> keys_are_week tza selectedDate st'"
    and "case after (handleDeleteTask api st taskId taskDate) of
           Inl e \<Rightarrow> False | Inr st' \<Rightarrow> keys_are_week tza selectedDate st'"
proof -
  have "taskDate \<in> dom (tasksByDate st)" using assms by (simp add: keys_are_week_def)
  then obtain tasks where t: "tasksByDate st taskDate = Some tasks" by blast
  have i: "insert taskDate (dom (tasksByDate st)) = dom (tasksByDate st)"
    using t by auto
  show "case after (handleToggleCompletion api st taskId taskDate) of
           Inl e \<Rightarrow> False | Inr st' \<Rightarrow> keys_are_week tza selectedDate st'"
    using assms(1) t i
    by (auto simp add: handleToggleCompletion_def keys_are_week_def split: promise.splits)
  show "case after (handleDeleteTask api st taskId taskDate) of
           Inl e \<Rightarrow> False | Inr st' \<Rightarrow> keys_are_week tza selectedDate st'"
    using assms(1) t i
    by (auto simp add: handleDeleteTask_def keys_are_week_def split: promise.splits)
qed

lemma useEffect_keys:
  fixes tza :: int
  assumes "\<bar>tza\<bar> < msPerDay" "length selectedDate = 10" "Date_parse selectedDate = Some t0"
  shows "case after (useEffect tza api st selectedDate) of
           Inl e \<Rightarrow> False
         | Inr st' \<Rightarrow>
             dom (tasksByDate st')
             = {k \<in> set (formattedDates tza (weekDates tza selectedDate)).
                  \<exists>tasks. getTasksByDate api k = Fulfilled tasks}"
proof -
  note r = fetchTasksForWeek_result[OF week_formats[OF assms], of api st]
  show ?thesis
  proof (cases "after (useEffect tza api st selectedDate)")
    case (Inl e)
    then show ?thesis using r by (simp add: useEffect_def)
  next
    case (Inr st')
    then have "\<forall>k. tasksByDate st' k
                  = (if k \<in> set (formattedDates tza (weekDates tza selectedDate))
                     then (case getTasksByDate api k of
                             Fulfilled tasks \<Rightarrow> Some tasks
                           | Rejected e \<Rightarrow> None)
                     else None)"
      using r by (simp add: useEffect_def)
    then have "k \<in> dom (tasksByDate st')
               \<longleftrightarrow> k \<in> set (formattedDates tza (weekDates tza selectedDate))
                    \<and> (\<exists>tasks. getTasksByDate api k = Fulfilled tasks)" for k
      by (cases "getTasksByDate api k") (auto simp add: dom_def)
    then have "dom (tasksByDate st')
               = {k \<in> set (formattedDates tza (weekDates tza selectedDate)).
                    \<exists>tasks. getTasksByDate api k = Fulfilled tasks}"
      by blast
    then show ?thesis using Inr by simp
  qed
qed

section \<open>Adding, toggling and deleting tasks\<close>

lemma trim_eq_Nil: "trim s = [] \<longleftrightarrow> (\<forall>c\<in>set s. isWhiteSpace c)"
proof
  assume "trim s = []"
  then have "dropWhile isWhiteSpace (rev (dropWhile isWhiteSpace s)) = []"
    by (simp add: trim_def)
  then have a: "\<forall>c\<in>set (dropWhile isWhiteSpace s). isWhiteSpace c"
    by (simp add: dropWhile_eq_Nil_conv)
  show "\<forall>c\<in>set s. isWhiteSpace c"
  proof (cases "dropWhile isWhiteSpace s")
    case Nil
    then show ?thesis by (simp add: dropWhile_eq_Nil_conv)
  next
    case (Cons x xs)
    then have "\<not> isWhiteSpace x" using hd_dropWhile[of isWhiteSpace s] by simp
    moreover have "x \<in> set (dropWhile isWhiteSpace s)" using Cons by simp
    ultimately show ?thesis using a by blast
  qed
next
  assume "\<forall>c\<in>set s. isWhiteSpace c"
  then have "dropWhile isWhiteSpace s = []" by (simp add: dropWhile_eq_Nil_conv)
  then show "trim s = []" unfolding trim_def by (simp only: rev.simps dropWhile.simps)
qed

text \<open>
  Claim C4. For every date and every task name that is empty or consists only of white
  space, \<^verbatim>\<open>handleAddTask\<close> sends no request (\<^verbatim>\<open>apiService.addTask\<close> is not called),
  logs nothing, throws nothing and leaves the state as it is.
\<close>

theorem handleAddTask_blank:
  assumes "\<forall>c\<in>set (newTask st). isWhiteSpace c"
  shows "handleAddTask tza api st date
         = \<lparr>calls = [], logged = [], after = Inr st, thrown = None\<rparr>"
  using assms trim_eq_Nil[of "newTask st"] by (simp add: handleAddTask_def)

text \<open>
  Claim C5. For a name that is not blank and a date whose key is \<open>d\<close>: when the request
  \<^verbatim>\<open>addTask\<close> is fulfilled with a task \<open>T\<close>, the new list at \<open>d\<close> is the old list at
  \<open>d\<close> (the empty list when \<open>d\<close> had no entry) with \<open>T\<close> appended at the end, and the
  entry of every other key is unchanged.
\<close>

theorem handleAddTask_success:
  assumes "\<exists>c\<in>set (newTask st). \<not> isWhiteSpace c"
    and "formatDateToYYYYMMDD tza date = Inr d"
    and "addTask api \<lparr>td_name = newTask st, td_completed = False, td_date = d\<rparr> = Fulfilled T"
  shows "calls (handleAddTask tza api st date)
           = [Call_addTask \<lparr>td_name = newTask st, td_completed = False, td_date = d\<rparr>]
         \<and> (case after (handleAddTask tza api st date) of
              Inl e \<Rightarrow> False
            | Inr st' \<Rightarrow>
                tasksByDate st' d
                  = Some ((case tasksByDate st d of None \<Rightarrow> [] | Some tasks \<Rightarrow> tasks) @ [T])
                \<and> (\<forall>k. k \<noteq> d \<longrightarrow> tasksByDate st' k = tasksByDate st k))"
  using assms trim_eq_Nil[of "newTask st"] by (auto simp add: handleAddTask_def)

text \<open>
  Claim C6. For a date \<open>d\<close> with an entry: when the request \<^verbatim>\<open>deleteTask\<close> is fulfilled, the
  new list at \<open>d\<close> is the old one without the tasks of that identifier, the others in their
  order, and the entry of every other key is unchanged.
\<close>

theorem handleDeleteTask_success:
  assumes "tasksByDate st d = Some tasks"
    and "deleteTask api taskId = Fulfilled ()"
  shows "case after (handleDeleteTask api st taskId d) of
           Inl e \<Rightarrow> False
         | Inr st' \<Rightarrow>
             tasksByDate st' d = Some (filter (\<lambda>task. task_id task \<noteq> taskId) tasks)
             \<and> (\<forall>task\<in>set (the (tasksByDate st' d)). task_id task \<noteq> taskId)
             \<and> (\<forall>k. k \<noteq> d \<longrightarrow> tasksByDate st' k = tasksByDate st k)
             \<and> newTask st' = newTask st"
  using assms by (simp add: handleDeleteTask_def)

text \<open>
  Claim C7. When the request of \<^verbatim>\<open>handleAddTask\<close>, \<^verbatim>\<open>handleToggleCompletion\<close> or
  \<^verbatim>\<open>handleDeleteTask\<close> is rejected, the handler catches the rejection: no error leaves
  the handler, and the state (the tasks and the input text) is the state before the call.
\<close>

theorem remote_failure_swallowed:
  "(formatDateToYYYYMMDD tza date = Inr d
      \<and> addTask api \<lparr>td_name = newTask st, td_completed = False, td_date = d\<rparr> = Rejected e
    \<longrightarrow> after (handleAddTask tza api st date) = Inr st
        \<and> thrown (handleAddTask tza api st date) = None)
   \<and> (toggleTaskCompletion api taskId = Rejected e
    \<longrightarrow> handleToggleCompletion api st taskId taskDate
          = \<lparr>calls = [Call_toggleTaskCompletion taskId],
             logged = [(''Error toggling task completion:'', e)],
             after = Inr st, thrown = None\<rparr>)
   \<and> (deleteTask api taskId = Rejected e
    \<longrightarrow> handleDeleteTask api st taskId taskDate
          = \<lparr>calls = [Call_deleteTask taskId],
             logged = [(''Error deleting task:'', e)],
             after = Inr st, thrown = None\<rparr>)"
  by (simp add: handleAddTask_def handleToggleCompletion_def handleDeleteTask_def)

text \<open>
  Claim C10. For a date \<open>d\<close> with no entry in the state, the state update of a fulfilled
  toggle or delete reads \<^verbatim>\<open>.map\<close> or \<^verbatim>\<open>.filter\<close> of \<^verbatim>\<open>undefined\<close>: it throws a TypeError
  and yields no state, whereas a fulfilled add starts from the empty list.
\<close>

theorem absent_entry_update:
  assumes "tasksByDate st d = None"
  shows "(toggleTaskCompletion api taskId = Fulfilled updatedTask
          \<longrightarrow> after (handleToggleCompletion api st taskId d) = Inl TypeError)
       \<and> (deleteTask api taskId = Fulfilled ()
          \<longrightarrow> after (handleDeleteTask api st taskId d) = Inl TypeError)
       \<and> ((\<exists>c\<in>set (newTask st). \<not> isWhiteSpace c)
            \<and> formatDateToYYYYMMDD tza date = Inr d
            \<and> addTask api \<lparr>td_name = newTask st, td_completed = False, td_date = d\<rparr>
                = Fulfilled response
          \<longrightarrow> after (handleAddTask tza api st date)
                = Inr (st\<lparr>tasksByDate := (tasksByDate st)(d \<mapsto> [response]), newTask := []\<rparr>))"
  using assms trim_eq_Nil[of "newTask st"]
  by (auto simp add: handleAddTask_def handleToggleCompletion_def handleDeleteTask_def)

section \<open>The theorems at example values\<close>

theorem handleAddTask_blank_witness:
  "handleAddTask 0 online_api \<lparr>newTask = [32, 9, 12288], tasksByDate = Map.empty\<rparr> (Some 0)
   = \<lparr>calls = [], logged = [],
      after = Inr \<lparr>newTask = [32, 9, 12288], tasksByDate = Map.empty\<rparr>, thrown = None\<rparr>"
proof -
  have h: "\<forall>c\<in>set (newTask \<lparr>newTask = [32, 9, 12288], tasksByDate = Map.empty\<rparr>). isWhiteSpace c"
    by (simp add: isWhiteSpace_def)
  show ?thesis by (rule handleAddTask_blank[OF h])
qed

lemma format_example: "formatDateToYYYYMMDD (- 18000000) (Some 1718236800000) = Inr ''2024-06-12''"
proof -
  have "Day (LocalTime (- 18000000) 1718236800000) = 19886"
    by (simp add: Day_def LocalTime_def msPerDay_def)
  then show ?thesis
    using format_local_day[of "- 18000000" 1718236800000 19886]
    by (simp add: dateString_example)
qed

lemma demo_not_blank: "\<exists>c\<in>set (newTask demo_state). \<not> isWhiteSpace c"
  by (simp add: demo_state_def isWhiteSpace_def)

theorem handleAddTask_success_witness:
  "calls (handleAddTask (- 18000000) online_api demo_state (Some 1718236800000))
     = [Call_addTask \<lparr>td_name = [109, 105, 108, 107], td_completed = False,
                      td_date = ''2024-06-12''\<rparr>]
   \<and> (case after (handleAddTask (- 18000000) online_api demo_state (Some 1718236800000)) of
         Inl e \<Rightarrow> False
       | Inr st' \<Rightarrow>
           tasksByDate st' ''2024-06-12''
             = Some [\<lparr>task_id = 8, task_name = [109, 105, 108, 107], task_completed = False,
                      task_date = ''2024-06-12''\<rparr>]
           \<and> tasksByDate st' ''2024-06-03'' = Some [])"
proof -
  have a: "addTask online_api \<lparr>td_name = newTask demo_state, td_completed = False,
                                 td_date = ''2024-06-12''\<rparr>
           = Fulfilled \<lparr>task_id = 8, task_name = [109, 105, 108, 107], task_completed = False,
                        task_date = ''2024-06-12''\<rparr>"
    by (simp add: online_api_def demo_state_def)
  note t = handleAddTask_success[OF demo_not_blank format_example a]
  have n: "newTask demo_state = [109, 105, 108, 107]"
    "tasksByDate demo_state ''2024-06-12'' = None"
    "tasksByDate demo_state ''2024-06-03'' = Some []"
    by (simp_all add: demo_state_def)
  show ?thesis
    using t unfolding n(1,2) by (auto simp add: n(3) split: sum.splits)
qed

theorem handleDeleteTask_success_witness:
  "case after (handleDeleteTask online_api
                 \<lparr>newTask = [], tasksByDate = Map.empty(''2024-06-10'' \<mapsto> [demo_task])\<rparr>
                 7 ''2024-06-10'') of
     Inl e \<Rightarrow> False
   | Inr st' \<Rightarrow> tasksByDate st' ''2024-06-10'' = Some [] \<and> tasksByDate st' ''2024-06-11'' = None"
proof -
  have a: "tasksByDate \<lparr>newTask = [], tasksByDate = Map.empty(''2024-06-10'' \<mapsto> [demo_task])\<rparr>
             ''2024-06-10'' = Some [demo_task]"
    by simp
  have b: "deleteTask online_api 7 = Fulfilled ()" by (simp add: online_api_def)
  show ?thesis
    using handleDeleteTask_success[OF a b] by (auto simp add: demo_task_def split: sum.splits)
qed

theorem remote_failure_swallowed_witness:
  "after (handleAddTask (- 18000000) offline_api demo_state (Some 1718236800000)) = Inr demo_state
   \<and> thrown (handleAddTask (- 18000000) offline_api demo_state (Some 1718236800000)) = None
   \<and> handleToggleCompletion offline_api demo_state 7 ''2024-06-10''
       = \<lparr>calls = [Call_toggleTaskCompletion 7],
          logged = [(''Error toggling task completion:'', ''offline'')],
          after = Inr demo_state, thrown = None\<rparr>
   \<and> handleDeleteTask offline_api demo_state 7 ''2024-06-10''
       = \<lparr>calls = [Call_deleteTask 7], logged = [(''Error deleting task:'', ''offline'')],
          after = Inr demo_state, thrown = None\<rparr>"
proof -
  have a: "addTask offline_api \<lparr>td_name = newTask demo_state, td_completed = False,
                                 td_date = ''2024-06-12''\<rparr> = Rejected ''offline''"
    "toggleTaskCompletion offline_api 7 = Rejected ''offline''"
    "deleteTask offline_api 7 = Rejected ''offline''"
    by (simp_all add: offline_api_def)
  show ?thesis
    using remote_failure_swallowed[of "- 18000000" "Some 1718236800000" "''2024-06-12''"
        offline_api demo_state "''offline''" 7 "''2024-06-10''"]
    by (simp add: a format_example)
qed

theorem absent_entry_update_witness:
  "after (handleToggleCompletion online_api demo_state 7 ''2024-06-12'') = Inl TypeError
   \<and> after (handleDeleteTask online_api demo_state 7 ''2024-06-12'') = Inl TypeError
   \<and> after (handleAddTask (- 18000000) online_api demo_state (Some 1718236800000))
       = Inr (demo_state\<lparr>tasksByDate := (tasksByDate demo_state)
                 (''2024-06-12'' \<mapsto>
                    [\<lparr>task_id = 8, task_name = [109, 105, 108, 107], task_completed = False,
                      task_date = ''2024-06-12''\<rparr>]),
               newTask := []\<rparr>)"
proof -
  have n: "tasksByDate demo_state ''2024-06-12'' = None" by (simp add: demo_state_def)
  have a: "addTask online_api \<lparr>td_name = newTask demo_state, td_completed = False,
                                 td_date = ''2024-06-12''\<rparr>
           = Fulfilled \<lparr>task_id = 8, task_name = [109, 105, 108, 107], task_completed = False,
                        task_date = ''2024-06-12''\<rparr>"
    "toggleTaskCompletion online_api 7 = Fulfilled (demo_task\<lparr>task_completed := True\<rparr>)"
    "deleteTask online_api 7 = Fulfilled ()"
    by (simp_all add: online_api_def demo_state_def)
  show ?thesis
    using absent_entry_update[OF n, where api = online_api and taskId = 7
        and tza = "- 18000000" and date = "Some 1718236800000"
        and updatedTask = "demo_task\<lparr>task_completed := True\<rparr>"
        and response = "\<lparr>task_id = 8, task_name = [109, 105, 108, 107],
          task_completed = False, task_date = ''2024-06-12''\<rparr>"]
    by (simp add: a format_example demo_not_blank)
qed

section \<open>The keys of the state and the week\<close>

lemma week_keys_example:
  "formattedDates (- 18000000) (weekDates (- 18000000) ''2024-06-12'')
   = [''2024-06-10'', ''2024-06-11'', ''2024-06-12'', ''2024-06-13'', ''2024-06-14'',
      ''2024-06-15'', ''2024-06-16'']"
proof -
  have t: "\<bar>- 18000000\<bar> < msPerDay" by (simp add: msPerDay_def)
  show ?thesis
    by (rule formattedDates_map) (simp add: week_example[OF t])
qed

lemma week_formats_example:
  "\<forall>date\<in>set (weekDates (- 18000000) ''2024-06-12'').
     \<exists>s. formatDateToYYYYMMDD (- 18000000) date = Inr s"
proof -
  have t: "\<bar>- 18000000\<bar> < msPerDay" by (simp add: msPerDay_def)
  have l: "length ''2024-06-12'' = 10" by simp
  show ?thesis by (rule week_formats[OF t l Date_parse_example])
qed

theorem fetchTasksForWeek_replaces_witness:
  "calls (fetchTasksForWeek (- 18000000) partial_api demo_state
            (weekDates (- 18000000) ''2024-06-12''))
     = map Call_getTasksByDate
         [''2024-06-10'', ''2024-06-11'', ''2024-06-12'', ''2024-06-13'', ''2024-06-14'',
          ''2024-06-15'', ''2024-06-16'']
   \<and> thrown (fetchTasksForWeek (- 18000000) partial_api demo_state
               (weekDates (- 18000000) ''2024-06-12'')) = None
   \<and> (case after (fetchTasksForWeek (- 18000000) partial_api demo_state
                     (weekDates (- 18000000) ''2024-06-12'')) of
         Inl e \<Rightarrow> False
       | Inr st' \<Rightarrow>
           tasksByDate st' ''2024-06-10'' = Some [demo_task]
           \<and> tasksByDate st' ''2024-06-11'' = Some []
           \<and> tasksByDate st' ''2024-06-12'' = None
           \<and> tasksByDate st' ''2024-06-03'' = None)"
proof -
  note t = fetchTasksForWeek_replaces[OF week_formats_example, of partial_api demo_state,
      unfolded week_keys_example]
  have a: "getTasksByDate partial_api ''2024-06-10'' = Fulfilled [demo_task]"
    "getTasksByDate partial_api ''2024-06-11'' = Fulfilled []"
    "getTasksByDate partial_api ''2024-06-12'' = Rejected ''offline''"
    by (simp_all add: partial_api_def online_api_def)
  show ?thesis
    using t by (auto simp add: a split: sum.splits)
qed

text \<open>
  Claim C9, as amended. Once the fetch for the reference date has settled, the keys of the
  state are the formatted dates of the week whose request was fulfilled; they are all
  seven formatted dates of the week when every request was fulfilled. When the keys are
  the formatted dates of the week, they still are after an add for a date of the week and
  after a toggle or a delete for a key of the week, and each of these yields a state.
\<close>

theorem keys_are_week_invariant:
  fixes tza :: int
  assumes "\<bar>tza\<bar> < msPerDay"
    and "length selectedDate = 10"
    and "Date_parse selectedDate = Some t0"
  shows "(case after (useEffect tza api st selectedDate) of
            Inl e \<Rightarrow> False
          | Inr st' \<Rightarrow>
              dom (tasksByDate st')
                = {k \<in> set (formattedDates tza (weekDates tza selectedDate)).
                     \<exists>tasks. getTasksByDate api k = Fulfilled tasks}
              \<and> ((\<forall>k\<in>set (formattedDates tza (weekDates tza selectedDate)).
                      \<exists>tasks. getTasksByDate api k = Fulfilled tasks)
                   \<longrightarrow> keys_are_week tza selectedDate st'))
       \<and> (\<forall>s date api'.
             keys_are_week tza selectedDate s \<and> date \<in> set (weekDates tza selectedDate)
             \<longrightarrow> (case after (handleAddTask tza api' s date) of
                    Inl e \<Rightarrow> False
                  | Inr s' \<Rightarrow> keys_are_week tza selectedDate s'))
       \<and> (\<forall>s taskId taskDate api'.
             keys_are_week tza selectedDate s
             \<and> taskDate \<in> set (formattedDates tza (weekDates tza selectedDate))
             \<longrightarrow> (case after (handleToggleCompletion api' s taskId taskDate) of
                    Inl e \<Rightarrow> False
                  | Inr s' \<Rightarrow> keys_are_week tza selectedDate s')
               \<and> (case after (handleDeleteTask api' s taskId taskDate) of
                    Inl e \<Rightarrow> False
                  | Inr s' \<Rightarrow> keys_are_week tza selectedDate s'))"
proof -
  have a: "case after (useEffect tza api st selectedDate) of
            Inl e \<Rightarrow> False
          | Inr st' \<Rightarrow>
              dom (tasksByDate st')
                = {k \<in> set (formattedDates tza (weekDates tza selectedDate)).
                     \<exists>tasks. getTasksByDate api k = Fulfilled tasks}
              \<and> ((\<forall>k\<in>set (formattedDates tza (weekDates tza selectedDate)).
                      \<exists>tasks. getTasksByDate api k = Fulfilled tasks)
                   \<longrightarrow> keys_are_week tza selectedDate st')"
    using useEffect_keys[OF assms, of api st]
    by (auto simp add: keys_are_week_def split: sum.splits)
  show ?thesis
    using a add_keeps_keys toggle_delete_keep_keys by blast
qed

theorem keys_are_week_invariant_witness:
  "(case after (useEffect (- 18000000) online_api demo_state ''2024-06-12'') of
      Inl e \<Rightarrow> False
    | Inr st' \<Rightarrow> keys_are_week (- 18000000) ''2024-06-12'' st')"
proof -
  have t: "\<bar>- 18000000\<bar> < msPerDay" by (simp add: msPerDay_def)
  have l: "length ''2024-06-12'' = 10" by simp
  have f: "\<forall>k\<in>set (formattedDates (- 18000000) (weekDates (- 18000000) ''2024-06-12'')).
             \<exists>tasks. getTasksByDate online_api k = Fulfilled tasks"
    by (simp add: online_api_def)
  show ?thesis
    using keys_are_week_invariant[OF t l Date_parse_example, of online_api demo_state] f
    by (auto split: sum.splits)
qed

text \<open>
  Claim C9 as stated fails when a request of the fetch is rejected: with the tasks of
  2024-06-12 rejected, the settled state has no entry for 2024-06-12, a date of the week.
\<close>

theorem rejected_fetch_leaves_key_absent:
  "''2024-06-12'' \<in> set (formattedDates (- 18000000) (weekDates (- 18000000) ''2024-06-12''))
   \<and> (case after (useEffect (- 18000000) partial_api demo_state ''2024-06-12'') of
         Inl e \<Rightarrow> False
       | Inr st' \<Rightarrow>
           tasksByDate st' ''2024-06-12'' = None
           \<and> \<not> keys_are_week (- 18000000) ''2024-06-12'' st')"
proof -
  have t: "\<bar>- 18000000\<bar> < msPerDay" by (simp add: msPerDay_def)
  have l: "length ''2024-06-12'' = 10" by simp
  note u = useEffect_keys[OF t l Date_parse_example, of partial_api demo_state,
      unfolded week_keys_example]
  have r: "getTasksByDate partial_api ''2024-06-12'' = Rejected ''offline''"
    by (simp add: partial_api_def)
  show ?thesis
  proof (cases "after (useEffect (- 18000000) partial_api demo_state ''2024-06-12'')")
    case (Inl e)
    then show ?thesis using u by simp
  next
    case (Inr st')
    then have "''2024-06-12'' \<notin> dom (tasksByDate st')"
      using u r by simp
    then show ?thesis
      using Inr by (auto simp add: keys_are_week_def week_keys_example)
  qed
qed

end
